theory Spec2Isabelle
  imports Complex_Main
begin

section \<open>Python values, errors and the resolved-input context\<close>

text \<open>
  The selectors of \<^verbatim>\<open>modules/defs/ext/SantodanNodes.py\<close> read \<^verbatim>\<open>input_data[0]\<close>, a Python
  dict from slot names to resolved values. A value is one of the JSON-like Python values
  below. A string is a list of code points below 256; a dict value has string keys.
\<close>

datatype error =
    TypeError
  | IndexError
  | KeyError
  | AttributeError
  | ValueError string
  | Raised string

text \<open>
  A Python float is a finite number with a sign and a magnitude that is not negative (so
  that minus zero is a value of its own), an infinity with a sign, or not-a-number.
\<close>

datatype pyfloat = PyFinite bool rat | PyInf bool | PyNaN

datatype pyval =
    PNone
  | PBool bool
  | PInt int
  | PFloat pyfloat
  | PStr string
  | PList "pyval list"
  | PDict "(string \<times> pyval) list"

type_synonym inputs = "string \<rightharpoonup> pyval"

text \<open>Python truthiness (\<^verbatim>\<open>if x:\<close>).\<close>

fun truthy :: "pyval \<Rightarrow> bool" where
  "truthy PNone = False"
| "truthy (PBool b) = b"
| "truthy (PInt i) = (i \<noteq> 0)"
| "truthy (PFloat f) = (case f of PyFinite neg m \<Rightarrow> m \<noteq> 0 | _ \<Rightarrow> True)"
| "truthy (PStr s) = (s \<noteq> [])"
| "truthy (PList xs) = (xs \<noteq> [])"
| "truthy (PDict kvs) = (kvs \<noteq> [])"

text \<open>
  \<^verbatim>\<open>v[0]\<close>: the first element of a list, the first character of a string; IndexError on
  an empty sequence, KeyError on a dict (its keys are strings, \<^verbatim>\<open>0\<close> is none of them),
  TypeError on a value that cannot be subscripted.
\<close>

fun subscript0 :: "pyval \<Rightarrow> error + pyval" where
  "subscript0 (PList []) = Inl IndexError"
| "subscript0 (PList (x # xs)) = Inr x"
| "subscript0 (PStr []) = Inl IndexError"
| "subscript0 (PStr (c # cs)) = Inr (PStr [c])"
| "subscript0 (PDict kvs) = Inl KeyError"
| "subscript0 PNone = Inl TypeError"
| "subscript0 (PBool b) = Inl TypeError"
| "subscript0 (PInt i) = Inl TypeError"
| "subscript0 (PFloat r) = Inl TypeError"

text \<open>\<^verbatim>\<open>for x in v\<close>: the elements of a list, the characters of a string, the keys of a dict.\<close>

fun py_iter :: "pyval \<Rightarrow> error + pyval list" where
  "py_iter (PList xs) = Inr xs"
| "py_iter (PStr s) = Inr (map (\<lambda>c. PStr [c]) s)"
| "py_iter (PDict kvs) = Inr (map (\<lambda>kv. PStr (fst kv)) kvs)"
| "py_iter PNone = Inl TypeError"
| "py_iter (PBool b) = Inl TypeError"
| "py_iter (PInt i) = Inl TypeError"
| "py_iter (PFloat r) = Inl TypeError"

text \<open>\<^verbatim>\<open>input_data[0].get(key, default)[0]\<close>, the read every loader selector makes.\<close>

definition get0 :: "inputs \<Rightarrow> string \<Rightarrow> pyval \<Rightarrow> error + pyval" where
  "get0 inp key dflt = subscript0 (case inp key of None \<Rightarrow> dflt | Some v \<Rightarrow> v)"

text \<open>\<^verbatim>\<open>input_data[0].get("load_mode", ["full_checkpoint"])[0]\<close>, repeated in each selector.\<close>

definition load_mode :: "inputs \<Rightarrow> error + pyval" where
  "load_mode inp = get0 inp ''load_mode'' (PList [PStr ''full_checkpoint''])"

section \<open>Selectors of the single-checkpoint loader (ModelAssembler)\<close>

text \<open>
  Each selector takes \<^verbatim>\<open>(node_id, obj, prompt, extra_data, outputs, input_data)\<close> and reads
  only \<^verbatim>\<open>input_data[0]\<close>; the model passes that dict. The hash functions come from
  \<^verbatim>\<open>..formatters\<close>, which is not among the sources: they are parameters, and may raise.
\<close>

type_synonym hasher = "pyval \<Rightarrow> error + pyval"

definition get_model_name :: "inputs \<Rightarrow> error + pyval" where
  "get_model_name inp =
     (case load_mode inp of
        Inl e \<Rightarrow> Inl e
      | Inr mode \<Rightarrow>
          get0 inp (if mode = PStr ''full_checkpoint'' then ''ckpt_name'' else ''base_model'')
            (PList [PNone]))"

definition get_model_hash :: "hasher \<Rightarrow> inputs \<Rightarrow> error + pyval" where
  "get_model_hash calc_model_hash inp =
     (case get_model_name inp of
        Inl e \<Rightarrow> Inl e
      | Inr model_name \<Rightarrow> if truthy model_name then calc_model_hash model_name else Inr PNone)"

definition get_vae_name :: "inputs \<Rightarrow> error + pyval" where
  "get_vae_name inp =
     (case load_mode inp of
        Inl e \<Rightarrow> Inl e
      | Inr mode \<Rightarrow>
          if mode = PStr ''separate_components'' then get0 inp ''vae_model'' (PList [PNone])
          else Inr PNone)"

definition get_vae_hash :: "hasher \<Rightarrow> inputs \<Rightarrow> error + pyval" where
  "get_vae_hash calc_vae_hash inp =
     (case get_vae_name inp of
        Inl e \<Rightarrow> Inl e
      | Inr vae_name \<Rightarrow> if truthy vae_name then calc_vae_hash vae_name else Inr PNone)"

text \<open>The loop of \<^verbatim>\<open>get_clip_names\<close> over the three clip slots, with its accumulator.\<close>

fun clip_names_loop :: "inputs \<Rightarrow> string list \<Rightarrow> pyval list \<Rightarrow> error + pyval list" where
  "clip_names_loop inp [] clip_names = Inr clip_names"
| "clip_names_loop inp (key # keys) clip_names =
     (case get0 inp key (PList [PNone]) of
        Inl e \<Rightarrow> Inl e
      | Inr name \<Rightarrow>
          clip_names_loop inp keys
            (if truthy name \<and> name \<noteq> PStr ''None'' then clip_names @ [name] else clip_names))"

definition get_clip_names :: "inputs \<Rightarrow> error + pyval" where
  "get_clip_names inp =
     (case load_mode inp of
        Inl e \<Rightarrow> Inl e
      | Inr mode \<Rightarrow>
          if mode = PStr ''separate_components'' then
            (case clip_names_loop inp [''clip_model_1'', ''clip_model_2'', ''clip_model_3''] [] of
               Inl e \<Rightarrow> Inl e
             | Inr clip_names \<Rightarrow> Inr (if clip_names \<noteq> [] then PList clip_names else PNone))
          else Inr PNone)"

text \<open>A list comprehension whose body may raise: the first error ends it.\<close>

fun map_raise :: "('a \<Rightarrow> error + 'b) \<Rightarrow> 'a list \<Rightarrow> error + 'b list" where
  "map_raise f [] = Inr []"
| "map_raise f (x # xs) =
     (case f x of
        Inl e \<Rightarrow> Inl e
      | Inr y \<Rightarrow> (case map_raise f xs of Inl e \<Rightarrow> Inl e | Inr ys \<Rightarrow> Inr (y # ys)))"

definition get_clip_hashes :: "hasher \<Rightarrow> inputs \<Rightarrow> error + pyval" where
  "get_clip_hashes calc_clip_hash inp =
     (case get_clip_names inp of
        Inl e \<Rightarrow> Inl e
      | Inr names \<Rightarrow>
          if truthy names then
            (case py_iter names of
               Inl e \<Rightarrow> Inl e
             | Inr ns \<Rightarrow>
                 (case map_raise calc_clip_hash ns of Inl e \<Rightarrow> Inl e | Inr hs \<Rightarrow> Inr (PList hs)))
          else Inr PNone)"

definition get_clip_type :: "inputs \<Rightarrow> error + pyval" where
  "get_clip_type inp =
     (case load_mode inp of
        Inl e \<Rightarrow> Inl e
      | Inr mode \<Rightarrow>
          if mode = PStr ''separate_components'' then get0 inp ''clip_type'' (PList [PNone])
          else Inr PNone)"

definition get_unet_dtype :: "inputs \<Rightarrow> error + pyval" where
  "get_unet_dtype inp =
     (case load_mode inp of
        Inl e \<Rightarrow> Inl e
      | Inr mode \<Rightarrow>
          if mode = PStr ''separate_components'' then get0 inp ''weight_dtype'' (PList [PNone])
          else Inr PNone)"

text \<open>The slots the eight selectors above read.\<close>

definition loader_slots :: "string list" where
  "loader_slots = [''load_mode'', ''ckpt_name'', ''base_model'', ''vae_model'', ''clip_model_1'',
     ''clip_model_2'', ''clip_model_3'', ''clip_type'', ''weight_dtype'']"

text \<open>The slots each selector and its hash selector read.\<close>

definition model_slots :: "string list" where
  "model_slots = [''load_mode'', ''ckpt_name'', ''base_model'']"

definition vae_slots :: "string list" where
  "vae_slots = [''load_mode'', ''vae_model'']"

definition clip_slots :: "string list" where
  "clip_slots = [''load_mode'', ''clip_model_1'', ''clip_model_2'', ''clip_model_3'']"

definition clip_type_slots :: "string list" where
  "clip_type_slots = [''load_mode'', ''clip_type'']"

definition dtype_slots :: "string list" where
  "dtype_slots = [''load_mode'', ''weight_dtype'']"

text \<open>
  For statements about raising: one of the slots \<open>ks\<close> holds a value whose subscript
  \<^verbatim>\<open>[0]\<close> raises \<open>e\<close> (a value of the wrong type, or an empty sequence); and one of the slots
  \<open>ks\<close> holds a value whose first element the hash function \<open>h\<close> raises \<open>e\<close> on.
\<close>

definition malformed :: "inputs \<Rightarrow> string list \<Rightarrow> error \<Rightarrow> bool" where
  "malformed inp ks e =
     list_ex (\<lambda>k. case inp k of None \<Rightarrow> False | Some v \<Rightarrow> subscript0 v = Inl e) ks"

definition hash_raised :: "hasher \<Rightarrow> inputs \<Rightarrow> string list \<Rightarrow> error \<Rightarrow> bool" where
  "hash_raised h inp ks e =
     list_ex (\<lambda>k. case inp k of
                    None \<Rightarrow> False
                  | Some v \<Rightarrow> (case subscript0 v of Inl e' \<Rightarrow> False | Inr n \<Rightarrow> h n = Inl e)) ks"

text \<open>
  \<^verbatim>\<open>get_metadata_field\<close>, the getter of the metadata-passthrough variant: it reads the
  dict in the slot \<^verbatim>\<open>metadata\<close>; \<^verbatim>\<open>dict.get\<close> gives \<^verbatim>\<open>None\<close> for a missing key.
\<close>

definition get_metadata_field :: "string \<Rightarrow> inputs \<Rightarrow> error + pyval" where
  "get_metadata_field field_name inp =
     (case get0 inp ''metadata'' (PList [PNone]) of
        Inl e \<Rightarrow> Inl e
      | Inr metadata_dict \<Rightarrow>
          (case metadata_dict of
             PDict kvs \<Rightarrow>
               if kvs \<noteq> [] then
                 Inr (case map_of kvs field_name of None \<Rightarrow> PNone | Some v \<Rightarrow> v)
               else Inr PNone
           | _ \<Rightarrow> Inr PNone))"

section \<open>The lora hub parser\<close>

text \<open>
  Character classes of Python's \<^verbatim>\<open>re\<close> on \<^verbatim>\<open>str\<close>, for code points below 256: \<^verbatim>\<open>\s\<close> (also
  what \<^verbatim>\<open>str.strip()\<close> removes) and \<^verbatim>\<open>\d\<close>.
\<close>

definition is_space :: "char \<Rightarrow> bool" where
  "is_space c = ((of_char c :: nat) \<in> set [9, 10, 11, 12, 13, 28, 29, 30, 31, 32, 133, 160])"

definition is_digit :: "char \<Rightarrow> bool" where
  "is_digit c = (48 \<le> (of_char c :: nat) \<and> (of_char c :: nat) \<le> 57)"

text \<open>
  The pattern is \<^verbatim>\<open>([^,]+?)\s\(([-+]?\d*\.?\d+)\)\<close>. \<open>match_number\<close> matches its end
  \<^verbatim>\<open>([-+]?\d*\.?\d+)\)\<close> at the head of a string and gives the text of the group and what
  follows the closing parenthesis. The sign, the digits and the dot are taken greedily; the
  only way the matcher can give characters back and still succeed is \<^verbatim>\<open>\d*\<close> leaving its
  digits to \<^verbatim>\<open>\d+\<close> when no dot follows, which captures the same text.
\<close>

definition match_number :: "string \<Rightarrow> (string \<times> string) option" where
  "match_number cs =
     (let sign = (case cs of c # r \<Rightarrow> if c = CHR ''-'' \<or> c = CHR ''+'' then [c] else [] | [] \<Rightarrow> []);
          r0 = drop (length sign) cs;
          d1 = takeWhile is_digit r0;
          r1 = dropWhile is_digit r0
      in case r1 of
           [] \<Rightarrow> None
         | c # r2 \<Rightarrow>
             if c = CHR ''.'' then
               (let d2 = takeWhile is_digit r2; r3 = dropWhile is_digit r2
                in case r3 of
                     [] \<Rightarrow> None
                   | c' # r4 \<Rightarrow>
                       if d2 \<noteq> [] \<and> c' = CHR '')'' then Some (sign @ d1 @ [c] @ d2, r4) else None)
             else if d1 \<noteq> [] \<and> c = CHR '')'' then Some (sign @ d1, r2)
             else None)"

text \<open>\<^verbatim>\<open>\s\(([-+]?\d*\.?\d+)\)\<close>: one whitespace character, an opening parenthesis, the number.\<close>

definition match_tail :: "string \<Rightarrow> (string \<times> string) option" where
  "match_tail cs =
     (case cs of
        w # p # r \<Rightarrow> if is_space w \<and> p = CHR ''('' then match_number r else None
      | _ \<Rightarrow> None)"

text \<open>
  The lazy group \<^verbatim>\<open>([^,]+?)\<close>: it takes one character that is not a comma, tries the rest
  of the pattern, and takes one more only when that fails. \<open>acc\<close> is what the group holds so
  far. The result is (group 1, group 2, the text after the match).
\<close>

fun match_from :: "string \<Rightarrow> string \<Rightarrow> (string \<times> string \<times> string) option" where
  "match_from acc [] = None"
| "match_from acc (c # cs) =
     (if c = CHR '','' then None
      else (case match_tail cs of
              Some (num, rest) \<Rightarrow> Some (acc @ [c], num, rest)
            | None \<Rightarrow> match_from (acc @ [c]) cs))"

text \<open>
  \<^verbatim>\<open>re.findall\<close>: the leftmost match, then on from where it ended; where nothing matches,
  on from the next character. With two groups it gives the pairs of their texts.
\<close>

function findall :: "string \<Rightarrow> (string \<times> string) list" where
  "findall [] = []"
| "findall (c # cs) =
     (case match_from [] (c # cs) of
        Some (g, num, rest) \<Rightarrow> (g, num) # findall rest
      | None \<Rightarrow> findall cs)"
  by pat_completeness auto
termination
proof (relation "measure length")
  show "wf (measure length)" by simp
next
  fix c :: char and cs :: string
  show "(cs, c # cs) \<in> measure length" by simp
next
  have number_shorter: "length rest < length cs"
    if m: "match_number cs = Some (num, rest)" for cs num rest
  proof -
    define sign where
      "sign = (case cs of c # r \<Rightarrow> if c = CHR ''-'' \<or> c = CHR ''+'' then [c] else [] | [] \<Rightarrow> [])"
    define r0 where "r0 = drop (length sign) cs"
    define r1 where "r1 = dropWhile is_digit r0"
    have l1: "length r1 \<le> length cs"
      using length_dropWhile_le [of is_digit r0] by (simp add: r1_def r0_def)
    show ?thesis
    proof (cases r1)
      case Nil
      with m show ?thesis
        by (simp add: match_number_def Let_def sign_def [symmetric] r0_def [symmetric]
            r1_def [symmetric])
    next
      case (Cons c r2)
      note r1 = Cons
      show ?thesis
      proof (cases "c = CHR ''.''")
        case False
        with m r1 have "rest = r2"
          by (simp add: match_number_def Let_def sign_def [symmetric] r0_def [symmetric]
              r1_def [symmetric] split: if_splits)
        with l1 r1 show ?thesis by simp
      next
        case True
        define r3 where "r3 = dropWhile is_digit r2"
        have l3: "length r3 \<le> length r2"
          using length_dropWhile_le [of is_digit r2] by (simp add: r3_def)
        from m r1 True obtain c' where "r3 = c' # rest"
          by (cases r3)
            (simp_all add: match_number_def Let_def sign_def [symmetric] r0_def [symmetric]
              r1_def [symmetric] r3_def [symmetric] split: if_splits)
        with l1 l3 r1 show ?thesis by simp
      qed
    qed
  qed
  have tail_shorter: "length rest < length cs"
    if "match_tail cs = Some (num, rest)" for cs num rest
    using that by (auto simp: match_tail_def split: list.splits if_splits dest: number_shorter)
  have from_shorter: "length rest < length cs"
    if "match_from acc cs = Some (g, num, rest)" for acc cs g num rest
    using that
  proof (induction cs arbitrary: acc)
    case Nil
    then show ?case by simp
  next
    case (Cons c cs)
    show ?case
    proof (cases "match_tail cs")
      case None
      with Cons.prems have "match_from (acc @ [c]) cs = Some (g, num, rest)"
        by (simp split: if_splits)
      from Cons.IH [OF this] show ?thesis by simp
    next
      case (Some nr)
      with Cons.prems have "match_tail cs = Some (num, rest)"
        by (cases nr) (simp split: if_splits)
      from tail_shorter [OF this] show ?thesis by simp
    qed
  qed
  fix c :: char and cs :: string and x2 :: "string \<times> string \<times> string"
    and g :: string and y :: "string \<times> string" and num rest :: string
  assume "match_from [] (c # cs) = Some x2" "(g, y) = x2" "(num, rest) = y"
  then have "match_from [] (c # cs) = Some (g, num, rest)" by simp
  from from_shorter [OF this] show "(rest, c # cs) \<in> measure length" by simp
qed

text \<open>\<^verbatim>\<open>str.strip()\<close>: whitespace is removed from both ends.\<close>

definition py_strip :: "string \<Rightarrow> string" where
  "py_strip s = rev (dropWhile is_space (rev (dropWhile is_space s)))"

text \<open>
  \<^verbatim>\<open>float(m[1])\<close> on a text of the group \<^verbatim>\<open>[-+]?\d*\.?\d+\<close>. The text gives a sign
  (\<open>decimal_negative\<close>) and the rational magnitude its digits denote
  (\<open>decimal_magnitude\<close>); \<open>fl\<close>, a parameter, is the rounding Python applies (binary64, to
  nearest): the float of that sign nearest to the magnitude, an infinity when the
  magnitude is too large. So \<^verbatim>\<open>float("-0")\<close> is \<open>fl True 0\<close>, minus zero. Every text of the
  group is a float literal, so this call never raises.
\<close>

type_synonym rounding = "bool \<Rightarrow> rat \<Rightarrow> pyfloat"

definition digits_value :: "string \<Rightarrow> nat" where
  "digits_value ds = foldl (\<lambda>a c. 10 * a + (of_char c - 48)) 0 ds"

definition decimal_negative :: "string \<Rightarrow> bool" where
  "decimal_negative t = (case t of c # r \<Rightarrow> c = CHR ''-'' | [] \<Rightarrow> False)"

definition decimal_magnitude :: "string \<Rightarrow> rat" where
  "decimal_magnitude t =
     (let r0 = (case t of c # r \<Rightarrow> if c = CHR ''-'' \<or> c = CHR ''+'' then r else t | [] \<Rightarrow> t);
          ip = takeWhile is_digit r0;
          fp = drop 1 (dropWhile is_digit r0)
      in of_nat (digits_value ip) + of_nat (digits_value fp) / 10 ^ length fp)"

definition py_float :: "rounding \<Rightarrow> string \<Rightarrow> pyfloat" where
  "py_float fl t = fl (decimal_negative t) (decimal_magnitude t)"

text \<open>The decimal text of a natural number, as an f-string writes \<^verbatim>\<open>{i}\<close>.\<close>

fun str_nat :: "nat \<Rightarrow> string" where
  "str_nat n =
     (if n < 10 then [''0123456789'' ! n]
      else str_nat (n div 10) @ [''0123456789'' ! (n mod 10)])"

declare str_nat.simps [simp del]

text \<open>An entry \<^verbatim>\<open>{"name": ..., "strength": ...}\<close> of the parsed list.\<close>

record lora_entry =
  name :: string
  strength :: pyfloat

text \<open>
  What one slot adds to \<^verbatim>\<open>all_loras\<close>, given the slot's value after a list has been
  replaced by its first element: nothing unless it is a non-empty string.
\<close>

definition slot_entries :: "rounding \<Rightarrow> pyval \<Rightarrow> lora_entry list" where
  "slot_entries fl lora_str =
     (case lora_str of
        PStr s \<Rightarrow>
          if s \<noteq> [] then
            map (\<lambda>m. \<lparr>name = py_strip (fst m), strength = py_float fl (snd m)\<rparr>) (findall s)
          else []
      | _ \<Rightarrow> [])"

text \<open>The loop \<^verbatim>\<open>for i in range(1, 5)\<close> of \<^verbatim>\<open>parse_lora_hub_data\<close>.\<close>

fun parse_loop :: "rounding \<Rightarrow> inputs \<Rightarrow> nat list \<Rightarrow> lora_entry list \<Rightarrow> error + lora_entry list" where
  "parse_loop fl inp [] all_loras = Inr all_loras"
| "parse_loop fl inp (i # is) all_loras =
     (let lora_str = (case inp (''loras_'' @ str_nat i) of None \<Rightarrow> PStr [] | Some v \<Rightarrow> v)
      in case (case lora_str of PList xs \<Rightarrow> subscript0 lora_str | _ \<Rightarrow> Inr lora_str) of
           Inl e \<Rightarrow> Inl e
         | Inr lora_str' \<Rightarrow> parse_loop fl inp is (all_loras @ slot_entries fl lora_str'))"

definition parse_lora_hub_data :: "rounding \<Rightarrow> inputs \<Rightarrow> error + lora_entry list" where
  "parse_lora_hub_data fl inp = parse_loop fl inp [1..<5] []"

section \<open>Selectors of the lora hub (LoraMetadataHub)\<close>

definition get_hub_lora_names :: "rounding \<Rightarrow> inputs \<Rightarrow> error + pyval" where
  "get_hub_lora_names fl inp =
     (case parse_lora_hub_data fl inp of
        Inl e \<Rightarrow> Inl e
      | Inr data \<Rightarrow> Inr (if data \<noteq> [] then PList (map (\<lambda>d. PStr (name d)) data) else PNone))"

definition get_hub_lora_strengths :: "rounding \<Rightarrow> inputs \<Rightarrow> error + pyval" where
  "get_hub_lora_strengths fl inp =
     (case parse_lora_hub_data fl inp of
        Inl e \<Rightarrow> Inl e
      | Inr data \<Rightarrow> Inr (if data \<noteq> [] then PList (map (\<lambda>d. PFloat (strength d)) data) else PNone))"

text \<open>
  \<^verbatim>\<open>calc_lora_hash(d["name"], input_data)\<close> is a parameter, like the other hash functions.
  The loop of \<^verbatim>\<open>get_hub_lora_hashes\<close> appends, for each entry, the hash when the call
  returns a truthy value, and \<^verbatim>\<open>None\<close> when it returns a falsy one or raises (the bare
  \<^verbatim>\<open>except\<close> catches everything).
\<close>

type_synonym lora_hasher = "string \<Rightarrow> inputs \<Rightarrow> error + pyval"

fun hub_hashes_loop :: "lora_hasher \<Rightarrow> inputs \<Rightarrow> lora_entry list \<Rightarrow> pyval list \<Rightarrow> pyval list" where
  "hub_hashes_loop calc_lora_hash inp [] hashes = hashes"
| "hub_hashes_loop calc_lora_hash inp (d # ds) hashes =
     hub_hashes_loop calc_lora_hash inp ds
       (case calc_lora_hash (name d) inp of
          Inr h \<Rightarrow> hashes @ [if truthy h then h else PNone]
        | Inl e \<Rightarrow> hashes @ [PNone])"

definition get_hub_lora_hashes :: "lora_hasher \<Rightarrow> rounding \<Rightarrow> inputs \<Rightarrow> error + pyval" where
  "get_hub_lora_hashes calc_lora_hash fl inp =
     (case parse_lora_hub_data fl inp of
        Inl e \<Rightarrow> Inl e
      | Inr data \<Rightarrow>
          if data = [] then Inr PNone
          else Inr (PList (hub_hashes_loop calc_lora_hash inp data [])))"

section \<open>The registry\<close>

text \<open>
  The keys of \<^verbatim>\<open>CAPTURE_FIELD_LIST\<close>'s inner dicts are members of the enum
  \<^verbatim>\<open>MetaField\<close> (declared in \<^verbatim>\<open>..meta\<close>, not among the sources; the members the table
  uses are listed) or plain strings. The table maps a node kind to its fields, each with
  its selector.
\<close>

datatype MetaField =
    MODEL_NAME
  | MODEL_HASH
  | VAE_NAME
  | VAE_HASH
  | LORA_MODEL_NAME
  | LORA_MODEL_HASH
  | LORA_STRENGTH_MODEL
  | LORA_STRENGTH_CLIP

datatype field = Meta MetaField | Named string

record externals =
  calc_model_hash :: hasher
  calc_vae_hash :: hasher
  calc_clip_hash :: hasher
  calc_lora_hash :: lora_hasher
  float_round :: rounding

definition CAPTURE_FIELD_LIST ::
    "externals \<Rightarrow> (string \<times> (field \<times> (inputs \<Rightarrow> error + pyval)) list) list" where
  "CAPTURE_FIELD_LIST ext =
     [(''ModelAssembler'',
        [(Meta MODEL_NAME, get_model_name),
         (Meta MODEL_HASH, get_model_hash (calc_model_hash ext)),
         (Meta VAE_NAME, get_vae_name),
         (Meta VAE_HASH, get_vae_hash (calc_vae_hash ext)),
         (Named ''Clip Model Name(s)'', get_clip_names),
         (Named ''Clip Model Hash(es)'', get_clip_hashes (calc_clip_hash ext)),
         (Named ''Clip Type'', get_clip_type),
         (Named ''UNet Weight Type'', get_unet_dtype)]),
      (''ModelAssemblerMetadata'',
        [(Meta MODEL_NAME, get_metadata_field ''model_name''),
         (Meta MODEL_HASH, get_metadata_field ''model_hash''),
         (Meta VAE_NAME, get_metadata_field ''vae_name''),
         (Meta VAE_HASH, get_metadata_field ''vae_hash''),
         (Named ''Clip Model Name(s)'', get_metadata_field ''clip_names''),
         (Named ''Clip Model Hash(es)'', get_metadata_field ''clip_hashes''),
         (Named ''Clip Type'', get_metadata_field ''clip_type''),
         (Named ''UNet Weight Type'', get_metadata_field ''unet_dtype'')]),
      (''LoraMetadataHub'',
        [(Meta LORA_MODEL_NAME, get_hub_lora_names (float_round ext)),
         (Meta LORA_MODEL_HASH, get_hub_lora_hashes (calc_lora_hash ext) (float_round ext)),
         (Meta LORA_STRENGTH_MODEL, get_hub_lora_strengths (float_round ext)),
         (Meta LORA_STRENGTH_CLIP, get_hub_lora_strengths (float_round ext))])]"

text \<open>\<^verbatim>\<open>CAPTURE_FIELD_LIST[kind][field]["selector"]\<close>, when both keys are there.\<close>

definition selector_of ::
    "externals \<Rightarrow> string \<Rightarrow> field \<Rightarrow> (inputs \<Rightarrow> error + pyval) option" where
  "selector_of ext kind fld =
     (case map_of (CAPTURE_FIELD_LIST ext) kind of
        None \<Rightarrow> None
      | Some entries \<Rightarrow> map_of entries fld)"

section \<open>Filename templates (\<^verbatim>\<open>SaveImageWithMetaData.format_filename\<close>)\<close>

text \<open>
  \<^verbatim>\<open>pattern_format = re.compile(r"(%[^%]+%)")\<close>: a percent sign, one or more characters
  that are not one, a percent sign. \<open>match_format\<close> matches it at the head of a string.
\<close>

definition match_format :: "string \<Rightarrow> (string \<times> string) option" where
  "match_format s =
     (case s of
        [] \<Rightarrow> None
      | c # r \<Rightarrow>
          if c = CHR ''%'' then
            (let body = takeWhile (\<lambda>x. x \<noteq> CHR ''%'') r;
                 rest = dropWhile (\<lambda>x. x \<noteq> CHR ''%'') r
             in if body \<noteq> [] \<and> rest \<noteq> [] then Some (c # body @ [CHR ''%''], tl rest) else None)
          else None)"

function findall_format :: "string \<Rightarrow> string list" where
  "findall_format [] = []"
| "findall_format (c # cs) =
     (case match_format (c # cs) of
        Some (segment, rest) \<Rightarrow> segment # findall_format rest
      | None \<Rightarrow> findall_format cs)"
  by pat_completeness auto
termination
proof (relation "measure length")
  show "wf (measure length)" by simp
next
  fix c :: char and cs :: string
  show "(cs, c # cs) \<in> measure length" by simp
next
  fix c :: char and cs :: string and x2 :: "string \<times> string" and segment rest :: string
  assume "match_format (c # cs) = Some x2" "(segment, rest) = x2"
  then have m: "match_format (c # cs) = Some (segment, rest)" by simp
  then have "rest = tl (dropWhile (\<lambda>x. x \<noteq> CHR ''%'') cs)"
    by (simp add: match_format_def Let_def split: if_splits)
  moreover have "length (dropWhile (\<lambda>x. x \<noteq> CHR ''%'') cs) \<le> length cs"
    by (rule length_dropWhile_le)
  ultimately show "(rest, c # cs) \<in> measure length" by simp
qed

text \<open>\<^verbatim>\<open>s.split(sep)\<close> for a separator of one character, and \<^verbatim>\<open>s.strip("%")\<close>.\<close>

fun py_split :: "char \<Rightarrow> string \<Rightarrow> string list" where
  "py_split sep [] = [[]]"
| "py_split sep (c # cs) =
     (if c = sep then [] # py_split sep cs
      else (c # hd (py_split sep cs)) # tl (py_split sep cs))"

definition strip_percent :: "string \<Rightarrow> string" where
  "strip_percent s =
     rev (dropWhile (\<lambda>x. x = CHR ''%'') (rev (dropWhile (\<lambda>x. x = CHR ''%'') s)))"

text \<open>
  \<^verbatim>\<open>s.replace(old, new)\<close>: every occurrence of \<open>old\<close>, leftmost first, none overlapping;
  an empty \<open>old\<close> matches before each character and at the end.
\<close>

function py_replace :: "string \<Rightarrow> string \<Rightarrow> string \<Rightarrow> string" where
  "py_replace old new s =
     (if old = [] then new @ concat (map (\<lambda>c. c # new) s)
      else if s = [] then []
      else if take (length old) s = old then new @ py_replace old new (drop (length old) s)
      else hd s # py_replace old new (tl s))"
  by pat_completeness auto
termination
  by (relation "measure (\<lambda>(old, new, s). length s)") auto

declare py_replace.simps [simp del]

text \<open>
  \<^verbatim>\<open>parts[1].isdigit()\<close> and \<^verbatim>\<open>int(parts[1])\<close>. Below code point 256 \<^verbatim>\<open>isdigit\<close> holds of
  the ASCII digits and of the superscripts one, two and three, which \<^verbatim>\<open>int\<close> refuses.
  (The limit Python sets on the number of digits \<^verbatim>\<open>int\<close> converts is not modelled.)
\<close>

definition py_isdigit :: "string \<Rightarrow> bool" where
  "py_isdigit s =
     (s \<noteq> [] \<and> list_all (\<lambda>c. is_digit c \<or> (of_char c :: nat) \<in> set [178, 179, 185]) s)"

definition py_int :: "string \<Rightarrow> error + nat" where
  "py_int s =
     (if s \<noteq> [] \<and> list_all is_digit s then Inr (digits_value s)
      else Inl (ValueError ''invalid literal for int()''))"

text \<open>
  \<^verbatim>\<open>int(parts[1]) if len(parts) > 1 and parts[1].isdigit() else None\<close>, the length a token
  may carry after its colon.
\<close>

definition token_length :: "string list \<Rightarrow> error + nat option" where
  "token_length parts =
     (if length parts > 1 \<and> py_isdigit (parts ! 1) then
        (case py_int (parts ! 1) of Inl e \<Rightarrow> Inl e | Inr n \<Rightarrow> Inr (Some n))
      else Inr None)"

text \<open>\<^verbatim>\<open>text[:length] if length else text\<close>: no length and the length 0 keep the whole text.\<close>

definition truncate_to :: "nat option \<Rightarrow> string \<Rightarrow> string" where
  "truncate_to len s = (case len of None \<Rightarrow> s | Some n \<Rightarrow> if n \<noteq> 0 then take n s else s)"

text \<open>
  \<^verbatim>\<open>os.path.basename\<close> and \<^verbatim>\<open>os.path.splitext(...)[0]\<close> as \<^verbatim>\<open>posixpath\<close> defines them: the
  separator is the slash; the extension starts at the last dot of the last component,
  unless only dots stand before it there.
\<close>

definition py_rfind :: "char \<Rightarrow> string \<Rightarrow> int" where
  "py_rfind c s =
     (if c \<in> set s then int (length s) - 1 - int (length (takeWhile (\<lambda>x. x \<noteq> c) (rev s)))
      else - 1)"

definition basename :: "string \<Rightarrow> string" where
  "basename p = drop (nat (py_rfind CHR ''/'' p + 1)) p"

definition splitext_root :: "string \<Rightarrow> string" where
  "splitext_root p =
     (let sepIndex = py_rfind CHR ''/'' p;
          dotIndex = py_rfind CHR ''.'' p
      in if dotIndex > sepIndex \<and>
            list_ex (\<lambda>x. x \<noteq> CHR ''.'') (take (nat (dotIndex - (sepIndex + 1))) (drop (nat (sepIndex + 1)) p))
         then take (nat dotIndex) p
         else p)"

text \<open>
  \<^verbatim>\<open>str(v)\<close>. The texts of floats, lists and dicts are left to a parameter; a string is
  itself.
\<close>

definition str_int :: "int \<Rightarrow> string" where
  "str_int i = (if i < 0 then CHR ''-'' # str_nat (nat (- i)) else str_nat (nat i))"

definition py_str :: "(pyval \<Rightarrow> string) \<Rightarrow> pyval \<Rightarrow> string" where
  "py_str repr_other v =
     (case v of
        PStr s \<Rightarrow> s
      | PNone \<Rightarrow> ''None''
      | PBool b \<Rightarrow> (if b then ''True'' else ''False'')
      | PInt i \<Rightarrow> str_int i
      | _ \<Rightarrow> repr_other v)"

text \<open>\<^verbatim>\<open>datetime.now()\<close> is a parameter; \<^verbatim>\<open>f"{n:02d}"\<close> pads to two digits.\<close>

record datetime =
  year :: nat
  month :: nat
  day :: nat
  hour :: nat
  minute :: nat
  second :: nat

definition pad2 :: "nat \<Rightarrow> string" where
  "pad2 n = (if n < 10 then CHR ''0'' # str_nat n else str_nat n)"

definition date_table :: "datetime \<Rightarrow> (string \<times> string) list" where
  "date_table now =
     [(''yyyy'', str_nat (year now)),
      (''MM'', pad2 (month now)),
      (''dd'', pad2 (day now)),
      (''hh'', pad2 (hour now)),
      (''mm'', pad2 (minute now)),
      (''ss'', pad2 (second now))]"

type_synonym pydict = "string \<rightharpoonup> pyval"

text \<open>A method of \<^verbatim>\<open>str\<close> called on a value: AttributeError unless it is a string.\<close>

definition as_str :: "pyval \<Rightarrow> error + string" where
  "as_str v = (case v of PStr s \<Rightarrow> Inr s | _ \<Rightarrow> Inl AttributeError)"

text \<open>
  One round of the loop \<^verbatim>\<open>for segment in result\<close>: the branch the token's key selects
  rewrites \<open>filename\<close>; a token with another key leaves it as it is.
\<close>

definition format_segment ::
    "(pyval \<Rightarrow> string) \<Rightarrow> datetime \<Rightarrow> pydict \<Rightarrow> string \<Rightarrow> string \<Rightarrow> error + string" where
  "format_segment repr_other now pnginfo_dict segment filename =
     (let parts = py_split CHR '':'' (strip_percent segment);
          key = hd parts
      in if key = ''seed'' then
           Inr (py_replace segment
                  (py_str repr_other (case pnginfo_dict ''Seed'' of None \<Rightarrow> PStr [] | Some v \<Rightarrow> v))
                  filename)
         else if key = ''width'' \<or> key = ''height'' then
           (case as_str (case pnginfo_dict ''Size'' of None \<Rightarrow> PStr ''x'' | Some v \<Rightarrow> v) of
              Inl e \<Rightarrow> Inl e
            | Inr sz \<Rightarrow>
                (let size = py_split CHR ''x'' sz
                 in if key = ''width'' then Inr (py_replace segment (size ! 0) filename)
                    else if length size > 1 then Inr (py_replace segment (size ! 1) filename)
                    else Inl IndexError))
         else if key = ''pprompt'' \<or> key = ''nprompt'' then
           (case as_str (case pnginfo_dict
                               ((if key = ''pprompt'' then ''Positive'' else ''Negative'') @ '' prompt'') of
                           None \<Rightarrow> PStr [] | Some v \<Rightarrow> v) of
              Inl e \<Rightarrow> Inl e
            | Inr p \<Rightarrow>
                (let prompt = py_replace [CHR 0x0A] '' '' p
                 in case token_length parts of
                      Inl e \<Rightarrow> Inl e
                    | Inr len \<Rightarrow> Inr (py_replace segment (py_strip (truncate_to len prompt)) filename)))
         else if key = ''model'' then
           (case (case pnginfo_dict ''Model'' of None \<Rightarrow> PStr [] | Some v \<Rightarrow> v) of
              PStr m \<Rightarrow>
                (let model = splitext_root (basename m)
                 in case token_length parts of
                      Inl e \<Rightarrow> Inl e
                    | Inr len \<Rightarrow> Inr (py_replace segment (truncate_to len model) filename))
            | _ \<Rightarrow> Inl TypeError)
         else if key = ''date'' then
           (let date_format = (if length parts > 1 then parts ! 1 else ''yyyyMMddhhmmss'')
            in Inr (py_replace segment
                      (foldl (\<lambda>fmt kv. py_replace (fst kv) (snd kv) fmt) date_format (date_table now))
                      filename))
         else Inr filename)"

fun format_loop ::
    "(pyval \<Rightarrow> string) \<Rightarrow> datetime \<Rightarrow> pydict \<Rightarrow> string list \<Rightarrow> string \<Rightarrow> error + string" where
  "format_loop repr_other now pnginfo_dict [] filename = Inr filename"
| "format_loop repr_other now pnginfo_dict (segment # segments) filename =
     (case format_segment repr_other now pnginfo_dict segment filename of
        Inl e \<Rightarrow> Inl e
      | Inr filename' \<Rightarrow> format_loop repr_other now pnginfo_dict segments filename')"

definition format_filename ::
    "(pyval \<Rightarrow> string) \<Rightarrow> datetime \<Rightarrow> string \<Rightarrow> pydict \<Rightarrow> error + string" where
  "format_filename repr_other now filename pnginfo_dict =
     format_loop repr_other now pnginfo_dict (findall_format filename) filename"

section \<open>Batch fields (\<^verbatim>\<open>SaveImageWithMetaData.prepare_pnginfo\<close>)\<close>

text \<open>
  \<^verbatim>\<open>pnginfo_dict\<close> is a reference to a dict that every image of a batch shares, so dicts
  live in a heap: a list of dicts, a reference being an index into it. \<^verbatim>\<open>dict.copy()\<close>
  allocates a new dict with the same keys and values at the end of the heap.
\<close>

type_synonym heap = "pydict list"

definition dict_copy :: "heap \<Rightarrow> nat \<Rightarrow> nat \<times> heap" where
  "dict_copy h r = (length h, h @ [h ! r])"

definition dict_set :: "heap \<Rightarrow> nat \<Rightarrow> string \<Rightarrow> pyval \<Rightarrow> heap" where
  "dict_set h r k v = h[r := (h ! r)(k \<mapsto> v)]"

text \<open>
  The \<^verbatim>\<open>PngInfo\<close> object is the list of its text chunks, \<^verbatim>\<open>add_text\<close> appends one.
  \<^verbatim>\<open>Capture.gen_parameters_str\<close> (in \<^verbatim>\<open>..capture\<close>, not among the sources) and
  \<^verbatim>\<open>json.dumps\<close> are parameters: functions of the dict or value they are given, which may
  raise.
\<close>

type_synonym pnginfo = "(string \<times> string) list"

text \<open>The loop over \<^verbatim>\<open>extra_pnginfo.items()\<close>.\<close>

fun add_extra :: "(pyval \<Rightarrow> error + string) \<Rightarrow> (string \<times> pyval) list \<Rightarrow> pnginfo \<Rightarrow> error + pnginfo" where
  "add_extra json_dumps [] metadata = Inr metadata"
| "add_extra json_dumps ((k, v) # kvs) metadata =
     (case (case v of PStr s \<Rightarrow> Inr s | _ \<Rightarrow> json_dumps v) of
        Inl e \<Rightarrow> Inl e
      | Inr value_to_add \<Rightarrow> add_extra json_dumps kvs (metadata @ [(k, value_to_add)]))"

text \<open>
  \<open>prepare_pnginfo\<close> gives what the call returns or raises, and the heap it leaves. The
  returned metadata is \<open>None\<close> for the scope \<^verbatim>\<open>"none"\<close>.
\<close>

definition prepare_pnginfo ::
    "(pydict \<Rightarrow> error + string) \<Rightarrow> (pyval \<Rightarrow> error + string) \<Rightarrow> heap \<Rightarrow> pnginfo \<Rightarrow> nat \<Rightarrow>
     nat \<Rightarrow> nat \<Rightarrow> pyval \<Rightarrow> pyval \<Rightarrow> string \<Rightarrow> (error + pnginfo option) \<times> heap" where
  "prepare_pnginfo gen_parameters_str json_dumps h metadata pnginfo_dict batch_number
       total_images prompt extra_pnginfo metadata_scope =
     (if metadata_scope = ''none'' then (Inr None, h)
      else
        (let (pnginfo_copy, h1) = dict_copy h pnginfo_dict;
             h2 = (if total_images > 1 then
                     dict_set (dict_set h1 pnginfo_copy ''Batch index'' (PInt (int batch_number)))
                       pnginfo_copy ''Batch size'' (PInt (int total_images))
                   else h1)
         in (case (if metadata_scope = ''full'' then
                     (case gen_parameters_str (h2 ! pnginfo_copy) of
                        Inl e \<Rightarrow> Inl e
                      | Inr parameters \<Rightarrow> Inr (metadata @ [(''parameters'', parameters)]))
                   else Inr metadata) of
               Inl e \<Rightarrow> (Inl e, h2)
             | Inr m1 \<Rightarrow>
                 (case (if prompt \<noteq> PNone \<and> metadata_scope \<noteq> ''workflow_only'' then
                          (case json_dumps prompt of
                             Inl e \<Rightarrow> Inl e
                           | Inr p \<Rightarrow> Inr (m1 @ [(''prompt'', p)]))
                        else Inr m1) of
                    Inl e \<Rightarrow> (Inl e, h2)
                  | Inr m2 \<Rightarrow>
                      (case (case extra_pnginfo of
                               PDict kvs \<Rightarrow> add_extra json_dumps kvs m2
                             | _ \<Rightarrow> Inr m2) of
                         Inl e \<Rightarrow> (Inl e, h2)
                       | Inr m3 \<Rightarrow> (Inr (Some m3), h2))))))"

text \<open>
  The loop \<^verbatim>\<open>for batch_number, image in enumerate(images)\<close> of \<^verbatim>\<open>save_images\<close>, reduced to
  its calls of \<open>prepare_pnginfo\<close>: every call gets the same \<^verbatim>\<open>PngInfo\<close> object and the
  same \<^verbatim>\<open>pnginfo_dict\<close>; an error ends the loop. It gives the heap the loop leaves.
\<close>

fun prepare_batch ::
    "(pydict \<Rightarrow> error + string) \<Rightarrow> (pyval \<Rightarrow> error + string) \<Rightarrow> heap \<Rightarrow> pnginfo \<Rightarrow> nat \<Rightarrow>
     nat list \<Rightarrow> nat \<Rightarrow> pyval \<Rightarrow> pyval \<Rightarrow> string \<Rightarrow> heap" where
  "prepare_batch gen_parameters_str json_dumps h metadata pnginfo_dict [] total_images prompt
       extra_pnginfo metadata_scope = h"
| "prepare_batch gen_parameters_str json_dumps h metadata pnginfo_dict (batch_number # rest)
       total_images prompt extra_pnginfo metadata_scope =
     (case prepare_pnginfo gen_parameters_str json_dumps h metadata pnginfo_dict batch_number
             total_images prompt extra_pnginfo metadata_scope of
        (Inl e, h') \<Rightarrow> h'
      | (Inr None, h') \<Rightarrow>
          prepare_batch gen_parameters_str json_dumps h' metadata pnginfo_dict rest total_images
            prompt extra_pnginfo metadata_scope
      | (Inr (Some metadata'), h') \<Rightarrow>
          prepare_batch gen_parameters_str json_dumps h' metadata' pnginfo_dict rest total_images
            prompt extra_pnginfo metadata_scope)"

section \<open>Extra metadata (\<^verbatim>\<open>CreateExtraMetaData.create_extra_metadata\<close>)\<close>

text \<open>
  \<^verbatim>\<open>keys_values\<close> holds the string inputs \<^verbatim>\<open>key1\<close>, \<^verbatim>\<open>value1\<close>, ... that were supplied;
  \<^verbatim>\<open>keys_values.get\<close> gives \<^verbatim>\<open>None\<close> for the others. A key or value counts (\<^verbatim>\<open>if key:\<close>) when
  it is supplied and not empty.
\<close>

definition supplied :: "string option \<Rightarrow> bool" where
  "supplied x = (case x of None \<Rightarrow> False | Some s \<Rightarrow> s \<noteq> [])"

definition unpaired_message :: "nat \<Rightarrow> string" where
  "unpaired_message i =
     ''Value provided for '' @ [CHR 0x27] @ ''value'' @ str_nat i @ [CHR 0x27] @
     '' without corresponding '' @ [CHR 0x27] @ ''key'' @ str_nat i @ [CHR 0x27] @ ''.''"

fun extra_loop ::
    "(string \<rightharpoonup> string) \<Rightarrow> nat list \<Rightarrow> (string \<rightharpoonup> string) \<Rightarrow> error + (string \<rightharpoonup> string)" where
  "extra_loop keys_values [] extra_metadata = Inr extra_metadata"
| "extra_loop keys_values (i # is) extra_metadata =
     (let key = keys_values (''key'' @ str_nat i);
          value = keys_values (''value'' @ str_nat i)
      in if supplied key then
           extra_loop keys_values is
             (extra_metadata(the key \<mapsto> (if supplied value then the value else [])))
         else if supplied value then Inl (ValueError (unpaired_message i))
         else extra_loop keys_values is extra_metadata)"

definition create_extra_metadata ::
    "(string \<rightharpoonup> string) option \<Rightarrow> (string \<rightharpoonup> string) \<Rightarrow> error + (string \<rightharpoonup> string)" where
  "create_extra_metadata extra_metadata keys_values =
     extra_loop keys_values [1..<5]
       (case extra_metadata of None \<Rightarrow> Map.empty | Some m \<Rightarrow> m)"

text \<open>
  For statements about the loop: slot \<open>i\<close> is unpaired when its value counts and its key does
  not, and \<open>store_slot\<close> is what a slot that is not unpaired does to the dict.
\<close>

definition bad_slot :: "(string \<rightharpoonup> string) \<Rightarrow> nat \<Rightarrow> bool" where
  "bad_slot kv i = (supplied (kv (''value'' @ str_nat i)) \<and> \<not> supplied (kv (''key'' @ str_nat i)))"

definition store_slot :: "(string \<rightharpoonup> string) \<Rightarrow> (string \<rightharpoonup> string) \<Rightarrow> nat \<Rightarrow> (string \<rightharpoonup> string)" where
  "store_slot kv m i =
     (if supplied (kv (''key'' @ str_nat i)) then
        m(the (kv (''key'' @ str_nat i)) \<mapsto>
            (if supplied (kv (''value'' @ str_nat i)) then the (kv (''value'' @ str_nat i)) else []))
      else m)"

section \<open>Example inputs\<close>

text \<open>A loader in full-checkpoint mode whose component slots are filled all the same.\<close>

definition ctx_full :: inputs where
  "ctx_full = map_of
     [(''load_mode'', PList [PStr ''full_checkpoint'']),
      (''ckpt_name'', PList [PStr ''sdxl.safetensors'']),
      (''vae_model'', PList [PStr ''vae.safetensors'']),
      (''clip_model_1'', PList [PStr ''clip_l.safetensors'']),
      (''clip_type'', PList [PStr ''sdxl'']),
      (''weight_dtype'', PList [PStr ''fp8_e4m3fn''])]"

text \<open>A loader in separate-components mode.\<close>

definition ctx_separate :: inputs where
  "ctx_separate = map_of
     [(''load_mode'', PList [PStr ''separate_components'']),
      (''base_model'', PList [PStr ''flux.safetensors'']),
      (''vae_model'', PList [PStr ''vae.safetensors'']),
      (''clip_model_1'', PList [PStr ''clip_l.safetensors'']),
      (''clip_model_2'', PList [PStr ''None'']),
      (''clip_type'', PList [PStr ''flux'']),
      (''weight_dtype'', PList [PStr ''fp8_e4m3fn''])]"

text \<open>A loader with no slot at all, and one with no load mode.\<close>

definition ctx_empty :: inputs where
  "ctx_empty = Map.empty"

definition ctx_no_mode :: inputs where
  "ctx_no_mode = map_of
     [(''ckpt_name'', PList [PStr ''sdxl.safetensors'']),
      (''base_model'', PList [PStr ''flux.safetensors'']),
      (''vae_model'', PList [PStr ''vae.safetensors''])]"

text \<open>A load mode of the wrong type, and a checkpoint name that is the empty string.\<close>

definition ctx_bad_mode :: inputs where
  "ctx_bad_mode = map_of [(''load_mode'', PInt 3)]"

definition ctx_empty_name :: inputs where
  "ctx_empty_name = map_of [(''ckpt_name'', PList [PStr []])]"

text \<open>A loader in separate-components mode with no other slot.\<close>

definition ctx_separate_bare :: inputs where
  "ctx_separate_bare = map_of [(''load_mode'', PList [PStr ''separate_components''])]"

text \<open>Hash functions: one that always raises, one that is constant, one that marks the name.\<close>

definition failing_hash :: hasher where
  "failing_hash n = Inl (Raised ''no such file'')"

definition const_hash :: hasher where
  "const_hash n = Inr (PStr ''31f8a0c2'')"

definition name_hash :: hasher where
  "name_hash n = (case n of PStr s \<Rightarrow> Inr (PStr (''h:'' @ s)) | _ \<Rightarrow> Inl TypeError)"

text \<open>A hub whose first slot holds two entries, and a lora hash function that raises on one.\<close>

definition ctx_hub :: inputs where
  "ctx_hub = map_of [(''loras_1'', PStr ''loraA.safetensors (0.8), loraB.safetensors (-0.3)'')]"

definition flaky_lora_hash :: lora_hasher where
  "flaky_lora_hash nm inp =
     (if nm = ''loraA.safetensors'' then Inl (Raised ''file not found'')
      else Inr (PStr (''h:'' @ nm)))"

text \<open>
  Extra-metadata inputs: a pair, a key with an empty value and an empty pair; and a value
  in slot 3 with no key.
\<close>

definition kv_example :: "string \<rightharpoonup> string" where
  "kv_example = map_of
     [(''key1'', ''author''), (''value1'', ''santodan''),
      (''key2'', ''note''), (''value2'', []),
      (''key3'', []), (''value3'', [])]"

definition kv_unpaired :: "string \<rightharpoonup> string" where
  "kv_unpaired = map_of
     [(''key1'', ''author''), (''value1'', ''santodan''), (''value3'', ''orphan'')]"

text \<open>
  A parameter record with a seed, a size and a model path. \<open>batch_marker\<close> stands for a
  parameters text that shows the batch index of the dict it is given, and \<open>no_json\<close> for a
  \<^verbatim>\<open>json.dumps\<close> that always raises.
\<close>

definition base_record :: pydict where
  "base_record = map_of
     [(''Seed'', PStr ''12345''), (''Size'', PStr ''512x768''),
      (''Model'', PStr ''path/to/myModel.safetensors'')]"

definition batch_marker :: "pydict \<Rightarrow> error + string" where
  "batch_marker d =
     Inr (case d ''Batch index'' of
            Some (PInt i) \<Rightarrow> ''Batch index: '' @ str_int i
          | _ \<Rightarrow> ''no batch'')"

definition no_json :: "pyval \<Rightarrow> error + string" where
  "no_json v = Inl TypeError"

section \<open>Properties of the loader selectors\<close>

lemma get0_absent: "inp key = None \<Longrightarrow> get0 inp key dflt = subscript0 dflt"
  by (simp add: get0_def)

lemma load_mode_absent:
  "inp ''load_mode'' = None \<Longrightarrow> load_mode inp = Inr (PStr ''full_checkpoint'')"
  by (simp add: load_mode_def get0_def)

text \<open>A read that raises found a value in the slot, and that value cannot be subscripted.\<close>

lemma get0_raises:
  "get0 inp key (PList [d]) = Inl e \<Longrightarrow> \<exists>v. inp key = Some v \<and> subscript0 v = Inl e"
  by (cases "inp key") (simp_all add: get0_def)

lemma get0_value:
  "get0 inp key (PList [PNone]) = Inr v \<Longrightarrow> v \<noteq> PNone \<Longrightarrow>
     \<exists>w. inp key = Some w \<and> subscript0 w = Inr v"
  by (cases "inp key") (simp_all add: get0_def)

text \<open>In any mode but \<^verbatim>\<open>"separate_components"\<close> the six gated selectors give \<^verbatim>\<open>None\<close>.\<close>

lemma not_separate_gated:
  assumes "load_mode inp = Inr m" "m \<noteq> PStr ''separate_components''"
  shows "get_vae_name inp = Inr PNone \<and> get_vae_hash cvh inp = Inr PNone \<and>
     get_clip_names inp = Inr PNone \<and> get_clip_hashes cch inp = Inr PNone \<and>
     get_clip_type inp = Inr PNone \<and> get_unet_dtype inp = Inr PNone"
  using assms
  by (simp add: get_vae_name_def get_vae_hash_def get_clip_names_def get_clip_hashes_def
      get_clip_type_def get_unet_dtype_def)

lemma gated_populated:
  "get_vae_name inp = Inr v \<Longrightarrow> v \<noteq> PNone \<Longrightarrow> load_mode inp = Inr (PStr ''separate_components'')"
  "get_clip_names inp = Inr v \<Longrightarrow> v \<noteq> PNone \<Longrightarrow> load_mode inp = Inr (PStr ''separate_components'')"
  "get_clip_type inp = Inr v \<Longrightarrow> v \<noteq> PNone \<Longrightarrow> load_mode inp = Inr (PStr ''separate_components'')"
  "get_unet_dtype inp = Inr v \<Longrightarrow> v \<noteq> PNone \<Longrightarrow> load_mode inp = Inr (PStr ''separate_components'')"
  "get_vae_hash cvh inp = Inr v \<Longrightarrow> v \<noteq> PNone \<Longrightarrow> load_mode inp = Inr (PStr ''separate_components'')"
  "get_clip_hashes cch inp = Inr v \<Longrightarrow> v \<noteq> PNone \<Longrightarrow> load_mode inp = Inr (PStr ''separate_components'')"
  by (auto simp: get_vae_name_def get_clip_names_def get_clip_type_def get_unet_dtype_def
      get_vae_hash_def get_clip_hashes_def split: sum.splits if_splits)

text \<open>
  Claim C3. When the load mode of a loader reads \<^verbatim>\<open>"full_checkpoint"\<close>, the selectors of the
  vae name, the vae hash, the clip names, the clip hashes, the clip type and the unet
  weight dtype all return \<^verbatim>\<open>None\<close>, whatever the other slots hold and whatever the hash
  functions do; and whenever one of the six returns a value other than \<^verbatim>\<open>None\<close>, the load
  mode reads \<^verbatim>\<open>"separate_components"\<close>.
\<close>

theorem full_checkpoint_fields_absent:
  "(load_mode inp = Inr (PStr ''full_checkpoint'') \<longrightarrow>
      get_vae_name inp = Inr PNone \<and> get_vae_hash cvh inp = Inr PNone \<and>
      get_clip_names inp = Inr PNone \<and> get_clip_hashes cch inp = Inr PNone \<and>
      get_clip_type inp = Inr PNone \<and> get_unet_dtype inp = Inr PNone) \<and>
   ((get_vae_name inp = Inr v \<or> get_vae_hash cvh inp = Inr v \<or> get_clip_names inp = Inr v \<or>
     get_clip_hashes cch inp = Inr v \<or> get_clip_type inp = Inr v \<or> get_unet_dtype inp = Inr v) \<and>
    v \<noteq> PNone \<longrightarrow> load_mode inp = Inr (PStr ''separate_components''))"
proof -
  have off: "get_vae_name inp = Inr PNone \<and> get_vae_hash cvh inp = Inr PNone \<and>
      get_clip_names inp = Inr PNone \<and> get_clip_hashes cch inp = Inr PNone \<and>
      get_clip_type inp = Inr PNone \<and> get_unet_dtype inp = Inr PNone"
    if "load_mode inp = Inr (PStr ''full_checkpoint'')"
    using not_separate_gated [of inp "PStr ''full_checkpoint''" cvh cch] that by simp
  have on: "load_mode inp = Inr (PStr ''separate_components'')"
    if "(get_vae_name inp = Inr v \<or> get_vae_hash cvh inp = Inr v \<or> get_clip_names inp = Inr v \<or>
         get_clip_hashes cch inp = Inr v \<or> get_clip_type inp = Inr v \<or> get_unet_dtype inp = Inr v) \<and>
        v \<noteq> PNone"
    using that gated_populated by blast
  from off on show ?thesis by blast
qed

theorem full_checkpoint_fields_absent_witness:
  "load_mode ctx_full = Inr (PStr ''full_checkpoint'') \<and>
   get_vae_name ctx_full = Inr PNone \<and> get_vae_hash (\<lambda>n. Inr n) ctx_full = Inr PNone \<and>
   get_clip_names ctx_full = Inr PNone \<and> get_clip_hashes (\<lambda>n. Inr n) ctx_full = Inr PNone \<and>
   get_clip_type ctx_full = Inr PNone \<and> get_unet_dtype ctx_full = Inr PNone \<and>
   get_vae_name ctx_separate = Inr (PStr ''vae.safetensors'') \<and>
   load_mode ctx_separate = Inr (PStr ''separate_components'')"
proof -
  have m: "load_mode ctx_full = Inr (PStr ''full_checkpoint'')"
    by (simp add: load_mode_def get0_def ctx_full_def)
  have v: "get_vae_name ctx_separate = Inr (PStr ''vae.safetensors'')"
    by (simp add: get_vae_name_def load_mode_def get0_def ctx_separate_def)
  from full_checkpoint_fields_absent
         [where inp = ctx_full and cvh = "\<lambda>n. Inr n" and cch = "\<lambda>n. Inr n"] m
    full_checkpoint_fields_absent [where inp = ctx_separate and v = "PStr ''vae.safetensors''"] v
  show ?thesis by simp
qed

text \<open>
  Claim C10. When the slot \<^verbatim>\<open>load_mode\<close> is absent the loader behaves as in full-checkpoint
  mode: the model-name selector reads the slot \<^verbatim>\<open>ckpt_name\<close>, and the six gated selectors
  return \<^verbatim>\<open>None\<close>. The model-name selector reads \<^verbatim>\<open>ckpt_name\<close> when the mode reads
  \<^verbatim>\<open>"full_checkpoint"\<close> and \<^verbatim>\<open>base_model\<close> for every other mode.
\<close>

theorem absent_mode_is_full_checkpoint:
  "(inp ''load_mode'' = None \<longrightarrow>
      get_model_name inp = get0 inp ''ckpt_name'' (PList [PNone]) \<and>
      get_vae_name inp = Inr PNone \<and> get_vae_hash cvh inp = Inr PNone \<and>
      get_clip_names inp = Inr PNone \<and> get_clip_hashes cch inp = Inr PNone \<and>
      get_clip_type inp = Inr PNone \<and> get_unet_dtype inp = Inr PNone) \<and>
   (load_mode inp = Inr (PStr ''full_checkpoint'') \<longrightarrow>
      get_model_name inp = get0 inp ''ckpt_name'' (PList [PNone])) \<and>
   (load_mode inp = Inr m \<and> m \<noteq> PStr ''full_checkpoint'' \<longrightarrow>
      get_model_name inp = get0 inp ''base_model'' (PList [PNone]))"
proof -
  have a: "get_model_name inp = get0 inp ''ckpt_name'' (PList [PNone])"
    if "load_mode inp = Inr (PStr ''full_checkpoint'')"
    using that by (simp add: get_model_name_def)
  have b: "get_model_name inp = get0 inp ''base_model'' (PList [PNone])"
    if "load_mode inp = Inr m \<and> m \<noteq> PStr ''full_checkpoint''"
    using that by (simp add: get_model_name_def)
  have c: "get_model_name inp = get0 inp ''ckpt_name'' (PList [PNone]) \<and>
      get_vae_name inp = Inr PNone \<and> get_vae_hash cvh inp = Inr PNone \<and>
      get_clip_names inp = Inr PNone \<and> get_clip_hashes cch inp = Inr PNone \<and>
      get_clip_type inp = Inr PNone \<and> get_unet_dtype inp = Inr PNone"
    if "inp ''load_mode'' = None"
    using a that load_mode_absent [of inp]
      not_separate_gated [of inp "PStr ''full_checkpoint''" cvh cch] by simp
  from a b c show ?thesis by blast
qed

theorem absent_mode_is_full_checkpoint_witness:
  "ctx_no_mode ''load_mode'' = None \<and>
   get_model_name ctx_no_mode = Inr (PStr ''sdxl.safetensors'') \<and>
   get_vae_name ctx_no_mode = Inr PNone \<and>
   load_mode ctx_separate = Inr (PStr ''separate_components'') \<and>
   get_model_name ctx_separate = Inr (PStr ''flux.safetensors'') \<and>
   load_mode ctx_full = Inr (PStr ''full_checkpoint'') \<and>
   get_model_name ctx_full = Inr (PStr ''sdxl.safetensors'')"
proof -
  have n: "ctx_no_mode ''load_mode'' = None" by (simp add: ctx_no_mode_def)
  have s: "load_mode ctx_separate = Inr (PStr ''separate_components'')"
    by (simp add: load_mode_def get0_def ctx_separate_def)
  have f: "load_mode ctx_full = Inr (PStr ''full_checkpoint'')"
    by (simp add: load_mode_def get0_def ctx_full_def)
  from absent_mode_is_full_checkpoint [where inp = ctx_no_mode and cvh = "\<lambda>n. Inr n" and cch = "\<lambda>n. Inr n"] n
  have 1: "get_model_name ctx_no_mode = Inr (PStr ''sdxl.safetensors'') \<and> get_vae_name ctx_no_mode = Inr PNone"
    by (simp add: get0_def ctx_no_mode_def)
  from absent_mode_is_full_checkpoint [where inp = ctx_separate and m = "PStr ''separate_components''"] s
  have 2: "get_model_name ctx_separate = Inr (PStr ''flux.safetensors'')"
    by (simp add: get0_def ctx_separate_def)
  from absent_mode_is_full_checkpoint [where inp = ctx_full] f
  have 3: "get_model_name ctx_full = Inr (PStr ''sdxl.safetensors'')"
    by (simp add: get0_def ctx_full_def)
  from n s f 1 2 3 show ?thesis by simp
qed

lemma load_mode_raises:
  "load_mode inp = Inl e \<Longrightarrow> \<exists>v. inp ''load_mode'' = Some v \<and> subscript0 v = Inl e"
  unfolding load_mode_def by (rule get0_raises)

lemma clip_names_loop_raises:
  "clip_names_loop inp keys acc = Inl e \<Longrightarrow>
     \<exists>k \<in> set keys. \<exists>v. inp k = Some v \<and> subscript0 v = Inl e"
proof (induction keys arbitrary: acc)
  case Nil
  then show ?case by simp
next
  case (Cons k keys)
  show ?case
  proof (cases "get0 inp k (PList [PNone])")
    case (Inl e')
    with Cons.prems have "e' = e" by simp
    with Inl get0_raises [of inp k PNone e] show ?thesis by auto
  next
    case (Inr nm)
    with Cons.prems Cons.IH show ?thesis by (auto split: if_splits)
  qed
qed

lemma clip_names_loop_values:
  "clip_names_loop inp keys acc = Inr ns \<Longrightarrow> n \<in> set ns \<Longrightarrow>
     n \<in> set acc \<or> (\<exists>k \<in> set keys. \<exists>w. inp k = Some w \<and> subscript0 w = Inr n)"
proof (induction keys arbitrary: acc)
  case Nil
  then show ?case by simp
next
  case (Cons k keys)
  from Cons.prems(1) obtain nm where g: "get0 inp k (PList [PNone]) = Inr nm"
    by (cases "get0 inp k (PList [PNone])") simp_all
  let ?acc = "if truthy nm \<and> nm \<noteq> PStr ''None'' then acc @ [nm] else acc"
  from Cons.prems(1) g have "clip_names_loop inp keys ?acc = Inr ns" by simp
  from Cons.IH [OF this Cons.prems(2)]
  have "n \<in> set ?acc \<or> (\<exists>k \<in> set keys. \<exists>w. inp k = Some w \<and> subscript0 w = Inr n)" .
  then show ?case
  proof
    assume "n \<in> set ?acc"
    then have "n \<in> set acc \<or> (n = nm \<and> truthy nm)" by (auto split: if_splits)
    then show ?thesis
    proof
      assume "n \<in> set acc" then show ?thesis by simp
    next
      assume "n = nm \<and> truthy nm"
      then have "get0 inp k (PList [PNone]) = Inr n" "n \<noteq> PNone" using g by auto
      from get0_value [OF this] show ?thesis by auto
    qed
  next
    assume "\<exists>k \<in> set keys. \<exists>w. inp k = Some w \<and> subscript0 w = Inr n"
    then show ?thesis by auto
  qed
qed

lemma map_raise_raises: "map_raise f xs = Inl e \<Longrightarrow> \<exists>x \<in> set xs. f x = Inl e"
  by (induction xs) (auto split: sum.splits)

lemma map_raise_map:
  "\<forall>x \<in> set xs. f x = Inr (g x) \<Longrightarrow> map_raise f xs = Inr (map g xs)"
  by (induction xs) auto

lemma clip_names_shape:
  "get_clip_names inp = Inr v \<Longrightarrow> v = PNone \<or> (\<exists>ns. v = PList ns \<and> ns \<noteq> [])"
  by (auto simp: get_clip_names_def split: sum.splits if_splits)

lemma malformedI:
  "k \<in> set ks \<Longrightarrow> inp k = Some v \<Longrightarrow> subscript0 v = Inl e \<Longrightarrow> malformed inp ks e"
  unfolding malformed_def list_ex_iff by (rule bexI [where x = k]) simp_all

lemma hash_raisedI:
  "k \<in> set ks \<Longrightarrow> inp k = Some v \<Longrightarrow> subscript0 v = Inr n \<Longrightarrow> h n = Inl e \<Longrightarrow>
     hash_raised h inp ks e"
  unfolding hash_raised_def list_ex_iff by (rule bexI [where x = k]) simp_all

lemma mode_malformed:
  "load_mode inp = Inl e \<Longrightarrow> ''load_mode'' \<in> set ks \<Longrightarrow> malformed inp ks e"
  using load_mode_raises [of inp e] by (auto intro: malformedI)

lemma slot_malformed:
  "get0 inp k (PList [PNone]) = Inl e \<Longrightarrow> k \<in> set ks \<Longrightarrow> malformed inp ks e"
  using get0_raises [of inp k PNone e] by (auto intro: malformedI)

lemma model_name_raises: "get_model_name inp = Inl e \<Longrightarrow> malformed inp model_slots e"
  by (auto simp: get_model_name_def model_slots_def split: sum.splits if_splits
      intro: mode_malformed slot_malformed)

lemma vae_name_raises: "get_vae_name inp = Inl e \<Longrightarrow> malformed inp vae_slots e"
  by (auto simp: get_vae_name_def vae_slots_def split: sum.splits if_splits
      intro: mode_malformed slot_malformed)

lemma clip_type_raises: "get_clip_type inp = Inl e \<Longrightarrow> malformed inp clip_type_slots e"
  by (auto simp: get_clip_type_def clip_type_slots_def split: sum.splits if_splits
      intro: mode_malformed slot_malformed)

lemma unet_dtype_raises: "get_unet_dtype inp = Inl e \<Longrightarrow> malformed inp dtype_slots e"
  by (auto simp: get_unet_dtype_def dtype_slots_def split: sum.splits if_splits
      intro: mode_malformed slot_malformed)

lemma clip_names_raises:
  assumes "get_clip_names inp = Inl e"
  shows "malformed inp clip_slots e"
proof (cases "load_mode inp")
  case (Inl e')
  with assms have "load_mode inp = Inl e" by (simp add: get_clip_names_def)
  then show ?thesis by (rule mode_malformed) (simp add: clip_slots_def)
next
  case (Inr m)
  with assms have
    "clip_names_loop inp [''clip_model_1'', ''clip_model_2'', ''clip_model_3''] [] = Inl e"
    by (auto simp: get_clip_names_def split: sum.splits if_splits)
  from clip_names_loop_raises [OF this] show ?thesis
    by (auto simp: clip_slots_def intro: malformedI)
qed

lemma model_hash_raises:
  assumes "get_model_hash cmh inp = Inl e"
  shows "malformed inp model_slots e \<or> hash_raised cmh inp model_slots e"
proof (cases "get_model_name inp")
  case (Inl e')
  with assms model_name_raises [of inp e] show ?thesis by (simp add: get_model_hash_def)
next
  case (Inr n)
  with assms have t: "truthy n" "cmh n = Inl e"
    by (auto simp: get_model_hash_def split: if_splits)
  from Inr obtain k where k: "k = ''ckpt_name'' \<or> k = ''base_model''"
    "get0 inp k (PList [PNone]) = Inr n"
    by (auto simp: get_model_name_def split: sum.splits if_splits)
  from t have "n \<noteq> PNone" by auto
  from get0_value [OF k(2) this] obtain w where "inp k = Some w" "subscript0 w = Inr n"
    by blast
  with k(1) t(2) have "hash_raised cmh inp model_slots e"
    by (auto simp: model_slots_def intro: hash_raisedI)
  then show ?thesis ..
qed

lemma vae_hash_raises:
  assumes "get_vae_hash cvh inp = Inl e"
  shows "malformed inp vae_slots e \<or> hash_raised cvh inp vae_slots e"
proof (cases "get_vae_name inp")
  case (Inl e')
  with assms vae_name_raises [of inp e] show ?thesis by (simp add: get_vae_hash_def)
next
  case (Inr n)
  with assms have t: "truthy n" "cvh n = Inl e"
    by (auto simp: get_vae_hash_def split: if_splits)
  from t have ne: "n \<noteq> PNone" by auto
  with Inr have "get0 inp ''vae_model'' (PList [PNone]) = Inr n"
    by (auto simp: get_vae_name_def split: sum.splits if_splits)
  from get0_value [OF this ne] obtain w where "inp ''vae_model'' = Some w" "subscript0 w = Inr n"
    by blast
  with t(2) have "hash_raised cvh inp vae_slots e"
    by (auto simp: vae_slots_def intro: hash_raisedI)
  then show ?thesis ..
qed

lemma clip_hashes_raises:
  assumes "get_clip_hashes cch inp = Inl e"
  shows "malformed inp clip_slots e \<or> hash_raised cch inp clip_slots e"
proof (cases "get_clip_names inp")
  case (Inl e')
  with assms clip_names_raises [of inp e] show ?thesis by (simp add: get_clip_hashes_def)
next
  case (Inr v)
  from clip_names_shape [OF Inr] assms Inr obtain ns where v: "v = PList ns" "ns \<noteq> []"
    by (auto simp: get_clip_hashes_def)
  with assms Inr have "map_raise cch ns = Inl e"
    by (auto simp: get_clip_hashes_def split: sum.splits)
  from map_raise_raises [OF this] obtain n where n: "n \<in> set ns" "cch n = Inl e" by blast
  from Inr v have
    "clip_names_loop inp [''clip_model_1'', ''clip_model_2'', ''clip_model_3''] [] = Inr ns"
    by (auto simp: get_clip_names_def split: sum.splits if_splits)
  from clip_names_loop_values [OF this n(1)]
  obtain k w where "k \<in> set [''clip_model_1'', ''clip_model_2'', ''clip_model_3'']"
    "inp k = Some w" "subscript0 w = Inr n" by auto
  with n(2) have "hash_raised cch inp clip_slots e"
    by (auto simp: clip_slots_def intro: hash_raisedI)
  then show ?thesis ..
qed

lemma own_slot_absent:
  assumes "load_mode inp = Inr m"
  shows "inp (if m = PStr ''full_checkpoint'' then ''ckpt_name'' else ''base_model'') = None \<Longrightarrow>
           get_model_name inp = Inr PNone \<and> get_model_hash cmh inp = Inr PNone"
    and "inp ''vae_model'' = None \<Longrightarrow>
           get_vae_name inp = Inr PNone \<and> get_vae_hash cvh inp = Inr PNone"
    and "inp ''clip_model_1'' = None \<and> inp ''clip_model_2'' = None \<and> inp ''clip_model_3'' = None \<Longrightarrow>
           get_clip_names inp = Inr PNone \<and> get_clip_hashes cch inp = Inr PNone"
    and "inp ''clip_type'' = None \<Longrightarrow> get_clip_type inp = Inr PNone"
    and "inp ''weight_dtype'' = None \<Longrightarrow> get_unet_dtype inp = Inr PNone"
  using assms
  by (auto simp: get_model_name_def get_model_hash_def get_vae_name_def get_vae_hash_def
      get_clip_names_def get_clip_hashes_def get_clip_type_def get_unet_dtype_def get0_def)

text \<open>
  Claim C7, as stated, fails in its last clause: with every slot of the context holding a
  well-formed value (a list of one string), the model-hash selector raises what the hash
  function raises, since \<^verbatim>\<open>get_model_hash\<close> calls it outside any \<^verbatim>\<open>try\<close>.
\<close>

theorem hash_raise_on_wellformed_slots_counterexample:
  "get_model_hash failing_hash ctx_full = Inl (Raised ''no such file'') \<and>
   \<not> (\<exists>k v e. ctx_full k = Some v \<and> subscript0 v = Inl e) \<and>
   \<not> malformed ctx_full loader_slots (Raised ''no such file'')"
proof -
  have 1: "get_model_hash failing_hash ctx_full = Inl (Raised ''no such file'')"
    by (simp add: get_model_hash_def get_model_name_def load_mode_def get0_def ctx_full_def
        failing_hash_def)
  have 2: "\<not> (\<exists>k v e. ctx_full k = Some v \<and> subscript0 v = Inl e)"
    by (auto simp: ctx_full_def split: if_splits)
  then have 3: "\<not> malformed ctx_full loader_slots (Raised ''no such file'')"
    by (auto simp: malformed_def list_ex_iff split: option.splits)
  from 1 2 3 show ?thesis by blast
qed

text \<open>
  Claim C7, amended. An absent load mode reads as \<^verbatim>\<open>"full_checkpoint"\<close>. Whenever the load
  mode can be read and the slot or slots a selector then reads are absent, the selector
  returns \<^verbatim>\<open>None\<close> and does not raise, whatever the hash functions do. The selectors of
  the model name, vae name, clip names, clip type and unet dtype raise only when one of
  their own slots holds a value whose subscript raises, and raise that error. A hash
  selector raises only then, or when its hash function raises on a name read from one of
  its own slots, an error it does not catch.
\<close>

theorem loader_selectors_absent_or_malformed:
  "(inp ''load_mode'' = None \<longrightarrow> load_mode inp = Inr (PStr ''full_checkpoint'')) \<and>
   (load_mode inp = Inr m \<and>
    inp (if m = PStr ''full_checkpoint'' then ''ckpt_name'' else ''base_model'') = None \<longrightarrow>
      get_model_name inp = Inr PNone \<and> get_model_hash cmh inp = Inr PNone) \<and>
   (load_mode inp = Inr m \<and> inp ''vae_model'' = None \<longrightarrow>
      get_vae_name inp = Inr PNone \<and> get_vae_hash cvh inp = Inr PNone) \<and>
   (load_mode inp = Inr m \<and> inp ''clip_model_1'' = None \<and> inp ''clip_model_2'' = None \<and>
    inp ''clip_model_3'' = None \<longrightarrow>
      get_clip_names inp = Inr PNone \<and> get_clip_hashes cch inp = Inr PNone) \<and>
   (load_mode inp = Inr m \<and> inp ''clip_type'' = None \<longrightarrow> get_clip_type inp = Inr PNone) \<and>
   (load_mode inp = Inr m \<and> inp ''weight_dtype'' = None \<longrightarrow> get_unet_dtype inp = Inr PNone) \<and>
   (get_model_name inp = Inl e \<longrightarrow> malformed inp model_slots e) \<and>
   (get_vae_name inp = Inl e \<longrightarrow> malformed inp vae_slots e) \<and>
   (get_clip_names inp = Inl e \<longrightarrow> malformed inp clip_slots e) \<and>
   (get_clip_type inp = Inl e \<longrightarrow> malformed inp clip_type_slots e) \<and>
   (get_unet_dtype inp = Inl e \<longrightarrow> malformed inp dtype_slots e) \<and>
   (get_model_hash cmh inp = Inl e \<longrightarrow>
      malformed inp model_slots e \<or> hash_raised cmh inp model_slots e) \<and>
   (get_vae_hash cvh inp = Inl e \<longrightarrow>
      malformed inp vae_slots e \<or> hash_raised cvh inp vae_slots e) \<and>
   (get_clip_hashes cch inp = Inl e \<longrightarrow>
      malformed inp clip_slots e \<or> hash_raised cch inp clip_slots e)"
proof -
  have a0: "inp ''load_mode'' = None \<longrightarrow> load_mode inp = Inr (PStr ''full_checkpoint'')"
    using load_mode_absent [of inp] by simp
  have a1: "load_mode inp = Inr m \<and>
    inp (if m = PStr ''full_checkpoint'' then ''ckpt_name'' else ''base_model'') = None \<longrightarrow>
      get_model_name inp = Inr PNone \<and> get_model_hash cmh inp = Inr PNone"
    using own_slot_absent(1) [of inp m cmh] by simp
  have a2: "load_mode inp = Inr m \<and> inp ''vae_model'' = None \<longrightarrow>
      get_vae_name inp = Inr PNone \<and> get_vae_hash cvh inp = Inr PNone"
    using own_slot_absent(2) [of inp m cvh] by simp
  have a3: "load_mode inp = Inr m \<and> inp ''clip_model_1'' = None \<and> inp ''clip_model_2'' = None \<and>
    inp ''clip_model_3'' = None \<longrightarrow>
      get_clip_names inp = Inr PNone \<and> get_clip_hashes cch inp = Inr PNone"
    using own_slot_absent(3) [of inp m cch] by simp
  have a4: "load_mode inp = Inr m \<and> inp ''clip_type'' = None \<longrightarrow> get_clip_type inp = Inr PNone"
    using own_slot_absent(4) [of inp m] by simp
  have a5: "load_mode inp = Inr m \<and> inp ''weight_dtype'' = None \<longrightarrow> get_unet_dtype inp = Inr PNone"
    using own_slot_absent(5) [of inp m] by simp
  have b1: "get_model_name inp = Inl e \<longrightarrow> malformed inp model_slots e"
    using model_name_raises [of inp e] by simp
  have b2: "get_vae_name inp = Inl e \<longrightarrow> malformed inp vae_slots e"
    using vae_name_raises [of inp e] by simp
  have b3: "get_clip_names inp = Inl e \<longrightarrow> malformed inp clip_slots e"
    using clip_names_raises [of inp e] by simp
  have b4: "get_clip_type inp = Inl e \<longrightarrow> malformed inp clip_type_slots e"
    using clip_type_raises [of inp e] by simp
  have b5: "get_unet_dtype inp = Inl e \<longrightarrow> malformed inp dtype_slots e"
    using unet_dtype_raises [of inp e] by simp
  have c1: "get_model_hash cmh inp = Inl e \<longrightarrow>
      malformed inp model_slots e \<or> hash_raised cmh inp model_slots e"
    using model_hash_raises [of cmh inp e] by simp
  have c2: "get_vae_hash cvh inp = Inl e \<longrightarrow>
      malformed inp vae_slots e \<or> hash_raised cvh inp vae_slots e"
    using vae_hash_raises [of cvh inp e] by simp
  have c3: "get_clip_hashes cch inp = Inl e \<longrightarrow>
      malformed inp clip_slots e \<or> hash_raised cch inp clip_slots e"
    using clip_hashes_raises [of cch inp e] by simp
  show ?thesis
    by (intro conjI) (rule a0 a1 a2 a3 a4 a5 b1 b2 b3 b4 b5 c1 c2 c3)+
qed

theorem loader_selectors_absent_or_malformed_witness:
  "ctx_empty ''load_mode'' = None \<and> load_mode ctx_empty = Inr (PStr ''full_checkpoint'') \<and>
   get_model_name ctx_empty = Inr PNone \<and> get_model_hash failing_hash ctx_empty = Inr PNone \<and>
   load_mode ctx_separate_bare = Inr (PStr ''separate_components'') \<and>
   get_model_name ctx_separate_bare = Inr PNone \<and>
   get_vae_name ctx_separate_bare = Inr PNone \<and>
   get_vae_hash failing_hash ctx_separate_bare = Inr PNone \<and>
   get_clip_names ctx_separate_bare = Inr PNone \<and>
   get_clip_hashes failing_hash ctx_separate_bare = Inr PNone \<and>
   get_clip_type ctx_separate_bare = Inr PNone \<and> get_unet_dtype ctx_separate_bare = Inr PNone \<and>
   get_vae_name ctx_bad_mode = Inl TypeError \<and> malformed ctx_bad_mode vae_slots TypeError \<and>
   get_model_hash failing_hash ctx_full = Inl (Raised ''no such file'') \<and>
   hash_raised failing_hash ctx_full model_slots (Raised ''no such file'')"
proof -
  have e: "ctx_empty ''load_mode'' = None" "ctx_empty ''ckpt_name'' = None"
    by (simp_all add: ctx_empty_def)
  have s: "load_mode ctx_separate_bare = Inr (PStr ''separate_components'')"
    by (simp add: load_mode_def get0_def ctx_separate_bare_def)
  have a: "ctx_separate_bare ''base_model'' = None" "ctx_separate_bare ''vae_model'' = None"
    "ctx_separate_bare ''clip_model_1'' = None" "ctx_separate_bare ''clip_model_2'' = None"
    "ctx_separate_bare ''clip_model_3'' = None" "ctx_separate_bare ''clip_type'' = None"
    "ctx_separate_bare ''weight_dtype'' = None"
    by (simp_all add: ctx_separate_bare_def)
  have b: "get_vae_name ctx_bad_mode = Inl TypeError"
    by (simp add: get_vae_name_def load_mode_def get0_def ctx_bad_mode_def)
  have h: "get_model_hash failing_hash ctx_full = Inl (Raised ''no such file'')"
    by (simp add: get_model_hash_def get_model_name_def load_mode_def get0_def ctx_full_def
        failing_hash_def)
  have nm: "\<not> malformed ctx_full model_slots (Raised ''no such file'')"
    by (simp add: malformed_def model_slots_def ctx_full_def)
  note t = loader_selectors_absent_or_malformed
    [where cmh = failing_hash and cvh = failing_hash and cch = failing_hash]
  from t [where inp = ctx_empty and m = "PStr ''full_checkpoint''"] e
  have 1: "load_mode ctx_empty = Inr (PStr ''full_checkpoint'') \<and>
     get_model_name ctx_empty = Inr PNone \<and> get_model_hash failing_hash ctx_empty = Inr PNone"
    by simp
  from t [where inp = ctx_separate_bare and m = "PStr ''separate_components''"] s a
  have 2: "get_model_name ctx_separate_bare = Inr PNone \<and>
   get_vae_name ctx_separate_bare = Inr PNone \<and>
   get_vae_hash failing_hash ctx_separate_bare = Inr PNone \<and>
   get_clip_names ctx_separate_bare = Inr PNone \<and>
   get_clip_hashes failing_hash ctx_separate_bare = Inr PNone \<and>
   get_clip_type ctx_separate_bare = Inr PNone \<and> get_unet_dtype ctx_separate_bare = Inr PNone"
    by simp
  from t [where inp = ctx_bad_mode and e = TypeError] b
  have 3: "malformed ctx_bad_mode vae_slots TypeError" by blast
  from t [where inp = ctx_full and e = "Raised ''no such file''"] h nm
  have 4: "hash_raised failing_hash ctx_full model_slots (Raised ''no such file'')" by blast
  from e(1) 1 s 2 b 3 h 4 show ?thesis by simp
qed

section \<open>Composition of the hash selectors\<close>

text \<open>
  Claim C8, as stated, fails: a checkpoint name that is the empty string is not \<^verbatim>\<open>None\<close>,
  the hash function gives a hash for it, and the model-hash selector returns \<^verbatim>\<open>None\<close>.
\<close>

theorem hash_of_non_null_name_counterexample:
  "get_model_name ctx_empty_name = Inr (PStr []) \<and> PStr [] \<noteq> PNone \<and>
   const_hash (PStr []) = Inr (PStr ''31f8a0c2'') \<and>
   get_model_hash const_hash ctx_empty_name = Inr PNone \<and>
   get_model_hash const_hash ctx_empty_name \<noteq> const_hash (PStr [])"
  by (simp add: get_model_hash_def get_model_name_def load_mode_def get0_def ctx_empty_name_def
      const_hash_def)

text \<open>
  Claim C8, amended. The model-hash selector is the model hash function applied to the
  result of the model-name selector when that result is truthy (\<^verbatim>\<open>if model_name:\<close>), it is
  \<^verbatim>\<open>None\<close> when that result is falsy (\<^verbatim>\<open>None\<close>, or empty, zero or false), and it raises what
  the model-name selector raises; likewise for the vae. The clip-hashes selector maps the
  clip hash function over the list the clip-names selector returns (that selector returns
  \<^verbatim>\<open>None\<close> or a list that is not empty), and is \<^verbatim>\<open>None\<close> when it returns \<^verbatim>\<open>None\<close>. Each
  selector is a function of the context and its hash function alone.
\<close>

theorem hash_selectors_compose:
  "(get_model_name inp = Inr n \<and> truthy n \<longrightarrow> get_model_hash cmh inp = cmh n) \<and>
   (get_model_name inp = Inr n \<and> \<not> truthy n \<longrightarrow> get_model_hash cmh inp = Inr PNone) \<and>
   (get_model_name inp = Inl e \<longrightarrow> get_model_hash cmh inp = Inl e) \<and>
   (get_vae_name inp = Inr n \<and> truthy n \<longrightarrow> get_vae_hash cvh inp = cvh n) \<and>
   (get_vae_name inp = Inr n \<and> \<not> truthy n \<longrightarrow> get_vae_hash cvh inp = Inr PNone) \<and>
   (get_vae_name inp = Inl e \<longrightarrow> get_vae_hash cvh inp = Inl e) \<and>
   (get_clip_names inp = Inr n \<and> n \<noteq> PNone \<longrightarrow>
      (\<exists>ns. n = PList ns \<and> ns \<noteq> [] \<and>
         get_clip_hashes cch inp =
           (case map_raise cch ns of Inl e' \<Rightarrow> Inl e' | Inr hs \<Rightarrow> Inr (PList hs)) \<and>
         ((\<forall>x \<in> set ns. cch x = Inr (h x)) \<longrightarrow>
            get_clip_hashes cch inp = Inr (PList (map h ns))))) \<and>
   (get_clip_names inp = Inr PNone \<longrightarrow> get_clip_hashes cch inp = Inr PNone) \<and>
   (get_clip_names inp = Inl e \<longrightarrow> get_clip_hashes cch inp = Inl e)"
proof -
  have clip: "\<exists>ns. n = PList ns \<and> ns \<noteq> [] \<and>
         get_clip_hashes cch inp =
           (case map_raise cch ns of Inl e' \<Rightarrow> Inl e' | Inr hs \<Rightarrow> Inr (PList hs)) \<and>
         ((\<forall>x \<in> set ns. cch x = Inr (h x)) \<longrightarrow>
            get_clip_hashes cch inp = Inr (PList (map h ns)))"
    if "get_clip_names inp = Inr n \<and> n \<noteq> PNone"
  proof -
    from that clip_names_shape [of inp n] obtain ns where ns: "n = PList ns" "ns \<noteq> []" by blast
    with that have eq: "get_clip_hashes cch inp =
           (case map_raise cch ns of Inl e' \<Rightarrow> Inl e' | Inr hs \<Rightarrow> Inr (PList hs))"
      by (simp add: get_clip_hashes_def)
    have "get_clip_hashes cch inp = Inr (PList (map h ns))" if "\<forall>x \<in> set ns. cch x = Inr (h x)"
      using eq map_raise_map [OF that] by simp
    with ns eq show ?thesis by blast
  qed
  show ?thesis
    using clip by (simp add: get_model_hash_def get_vae_hash_def get_clip_hashes_def)
qed

theorem hash_selectors_compose_witness:
  "get_model_name ctx_separate = Inr (PStr ''flux.safetensors'') \<and>
   get_model_hash name_hash ctx_separate = Inr (PStr ''h:flux.safetensors'') \<and>
   get_vae_name ctx_separate = Inr (PStr ''vae.safetensors'') \<and>
   get_vae_hash name_hash ctx_separate = Inr (PStr ''h:vae.safetensors'') \<and>
   get_clip_names ctx_separate = Inr (PList [PStr ''clip_l.safetensors'']) \<and>
   get_clip_hashes name_hash ctx_separate = Inr (PList [PStr ''h:clip_l.safetensors'']) \<and>
   get_model_name ctx_empty_name = Inr (PStr []) \<and>
   get_model_hash name_hash ctx_empty_name = Inr PNone \<and>
   get_clip_names ctx_full = Inr PNone \<and> get_clip_hashes name_hash ctx_full = Inr PNone"
proof -
  have m: "get_model_name ctx_separate = Inr (PStr ''flux.safetensors'')"
    by (simp add: get_model_name_def load_mode_def get0_def ctx_separate_def)
  have v: "get_vae_name ctx_separate = Inr (PStr ''vae.safetensors'')"
    by (simp add: get_vae_name_def load_mode_def get0_def ctx_separate_def)
  have c: "get_clip_names ctx_separate = Inr (PList [PStr ''clip_l.safetensors''])"
    by (simp add: get_clip_names_def load_mode_def get0_def ctx_separate_def)
  have e: "get_model_name ctx_empty_name = Inr (PStr [])"
    by (simp add: get_model_name_def load_mode_def get0_def ctx_empty_name_def)
  have f: "get_clip_names ctx_full = Inr PNone"
    by (simp add: get_clip_names_def load_mode_def get0_def ctx_full_def)
  note t = hash_selectors_compose [where cmh = name_hash and cvh = name_hash and cch = name_hash]
  from t [where inp = ctx_separate and n = "PStr ''flux.safetensors''"] m
  have 1: "get_model_hash name_hash ctx_separate = Inr (PStr ''h:flux.safetensors'')"
    by (simp add: name_hash_def)
  from t [where inp = ctx_separate and n = "PStr ''vae.safetensors''"] v
  have 2: "get_vae_hash name_hash ctx_separate = Inr (PStr ''h:vae.safetensors'')"
    by (simp add: name_hash_def)
  from t [where inp = ctx_separate and n = "PList [PStr ''clip_l.safetensors'']"
      and h = "\<lambda>x. PStr ''h:clip_l.safetensors''"] c
  have 3: "get_clip_hashes name_hash ctx_separate = Inr (PList [PStr ''h:clip_l.safetensors''])"
    by (simp add: name_hash_def)
  from t [where inp = ctx_empty_name and n = "PStr []"] e
  have 4: "get_model_hash name_hash ctx_empty_name = Inr PNone" by simp
  from t [where inp = ctx_full] f
  have 5: "get_clip_hashes name_hash ctx_full = Inr PNone" by simp
  from m v c e f 1 2 3 4 5 show ?thesis by simp
qed

section \<open>Properties of the hub selectors\<close>

text \<open>
  Claim C9. The registry binds the same function, \<open>get_hub_lora_strengths\<close>, to the lora
  model-strength and the lora clip-strength fields of the hub, so for every context the
  two fields resolve to the same result.
\<close>

theorem hub_strength_fields_coincide:
  "selector_of ext ''LoraMetadataHub'' (Meta LORA_STRENGTH_CLIP) =
     Some (get_hub_lora_strengths (float_round ext)) \<and>
   selector_of ext ''LoraMetadataHub'' (Meta LORA_STRENGTH_MODEL) =
     Some (get_hub_lora_strengths (float_round ext)) \<and>
   map_option (\<lambda>sel. sel inp) (selector_of ext ''LoraMetadataHub'' (Meta LORA_STRENGTH_CLIP)) =
   map_option (\<lambda>sel. sel inp) (selector_of ext ''LoraMetadataHub'' (Meta LORA_STRENGTH_MODEL))"
  by (simp add: selector_of_def CAPTURE_FIELD_LIST_def)


lemmas parse_eval = parse_lora_hub_data_def slot_entries_def match_tail_def match_number_def
  is_space_def is_digit_def py_strip_def py_float_def decimal_negative_def decimal_magnitude_def digits_value_def upt_rec
  str_nat.simps

lemma parse_ctx_hub:
  "parse_lora_hub_data fl ctx_hub =
     Inr [\<lparr>name = ''loraA.safetensors'', strength = fl False (4 / 5)\<rparr>,
          \<lparr>name = ''loraB.safetensors'', strength = fl True (3 / 10)\<rparr>]"
  by (simp add: ctx_hub_def parse_eval)

lemma hub_hashes_loop_map:
  "hub_hashes_loop clh inp ds hashes =
     hashes @ map (\<lambda>d. case clh (name d) inp of Inl e \<Rightarrow> PNone
                        | Inr h \<Rightarrow> if truthy h then h else PNone) ds"
  by (induction ds arbitrary: hashes) (auto split: sum.splits)

text \<open>
  Claim C2. When the parser gives a list of entries that is not empty, the lora-hash
  selector does not raise and returns a list as long as the entries: the hash of entry
  \<open>i\<close> depends on the hash call for entry \<open>i\<close> only; it is \<^verbatim>\<open>None\<close> when that call raises (or
  returns a falsy value) and the hash it returns otherwise.
\<close>

theorem hub_hashes_per_entry:
  assumes "parse_lora_hub_data fl inp = Inr data" and "data \<noteq> []"
  shows "\<exists>hs. get_hub_lora_hashes clh fl inp = Inr (PList hs) \<and> length hs = length data \<and>
     (\<forall>i < length data.
        hs ! i = (case clh (name (data ! i)) inp of
                    Inl e \<Rightarrow> PNone
                  | Inr h \<Rightarrow> if truthy h then h else PNone) \<and>
        ((\<exists>e. clh (name (data ! i)) inp = Inl e) \<longrightarrow> hs ! i = PNone))"
proof -
  let ?f = "\<lambda>d. case clh (name d) inp of Inl e \<Rightarrow> PNone | Inr h \<Rightarrow> if truthy h then h else PNone"
  from assms have "get_hub_lora_hashes clh fl inp = Inr (PList (map ?f data))"
    by (simp add: get_hub_lora_hashes_def hub_hashes_loop_map)
  moreover have "length (map ?f data) = length data" by simp
  moreover have "\<forall>i < length data. map ?f data ! i = ?f (data ! i) \<and>
      ((\<exists>e. clh (name (data ! i)) inp = Inl e) \<longrightarrow> map ?f data ! i = PNone)"
    by auto
  ultimately show ?thesis by blast
qed

theorem hub_hashes_per_entry_witness:
  "parse_lora_hub_data PyFinite ctx_hub =
     Inr [\<lparr>name = ''loraA.safetensors'', strength = PyFinite False (4 / 5)\<rparr>,
          \<lparr>name = ''loraB.safetensors'', strength = PyFinite True (3 / 10)\<rparr>] \<and>
   flaky_lora_hash ''loraA.safetensors'' ctx_hub = Inl (Raised ''file not found'') \<and>
   get_hub_lora_hashes flaky_lora_hash PyFinite ctx_hub =
     Inr (PList [PNone, PStr ''h:loraB.safetensors''])"
proof -
  let ?data = "[\<lparr>name = ''loraA.safetensors'', strength = PyFinite False (4 / 5)\<rparr>,
          \<lparr>name = ''loraB.safetensors'', strength = PyFinite True (3 / 10)\<rparr>]"
  have p: "parse_lora_hub_data PyFinite ctx_hub = Inr ?data" by (rule parse_ctx_hub)
  from hub_hashes_per_entry [OF p, of flaky_lora_hash]
  obtain hs where hs: "get_hub_lora_hashes flaky_lora_hash PyFinite ctx_hub = Inr (PList hs)"
    "length hs = 2"
    "\<forall>i < 2. hs ! i = (case flaky_lora_hash (name (?data ! i)) ctx_hub of
                    Inl e \<Rightarrow> PNone
                  | Inr h \<Rightarrow> if truthy h then h else PNone)"
    by auto
  from hs(3) have "hs ! 0 = PNone" "hs ! 1 = PStr ''h:loraB.safetensors''"
    by (simp_all add: flaky_lora_hash_def)
  with hs(2) have "hs = [PNone, PStr ''h:loraB.safetensors'']"
    by (cases hs; cases "tl hs") auto
  with hs(1) p show ?thesis by (simp add: flaky_lora_hash_def)
qed

section \<open>Properties of \<open>create_extra_metadata\<close>\<close>

lemma extra_loop_raises:
  "(\<exists>e. extra_loop kv is m = Inl e) \<longleftrightarrow> (\<exists>i \<in> set is. bad_slot kv i)"
  by (induction "is" arbitrary: m) (auto simp: Let_def bad_slot_def)

lemma extra_loop_fold:
  "\<forall>i \<in> set is. \<not> bad_slot kv i \<Longrightarrow> extra_loop kv is m = Inr (foldl (store_slot kv) m is)"
  by (induction "is" arbitrary: m) (auto simp: Let_def bad_slot_def store_slot_def)

lemma extra_loop_first_error:
  "\<forall>j \<in> set js. \<not> bad_slot kv j \<Longrightarrow> bad_slot kv i \<Longrightarrow>
   extra_loop kv (js @ i # is) m = Inl (ValueError (unpaired_message i))"
  by (induction js arbitrary: m) (auto simp: Let_def bad_slot_def)

lemma foldl_store_keeps:
  "\<forall>j \<in> set js. kv (''key'' @ str_nat j) \<noteq> Some k \<Longrightarrow>
   foldl (store_slot kv) m js k = m k"
  by (induction js arbitrary: m) (auto simp: store_slot_def supplied_def split: option.splits)

lemma foldl_store_last:
  assumes "supplied (kv (''key'' @ str_nat i))"
    and "\<forall>j \<in> set js. kv (''key'' @ str_nat j) \<noteq> kv (''key'' @ str_nat i)"
  shows "foldl (store_slot kv) m (is @ i # js) (the (kv (''key'' @ str_nat i))) =
     Some (if supplied (kv (''value'' @ str_nat i)) then the (kv (''value'' @ str_nat i)) else [])"
proof -
  from assms(1) obtain k where k: "kv (''key'' @ str_nat i) = Some k"
    by (auto simp: supplied_def split: option.splits)
  with assms(2) have "\<forall>j \<in> set js. kv (''key'' @ str_nat j) \<noteq> Some k" by simp
  from foldl_store_keeps [OF this]
  show ?thesis using k assms(1) by (simp add: store_slot_def)
qed

lemma slots_split:
  assumes "i \<in> {1..4}"
  shows "[1..<5] = [1..<i] @ i # [Suc i..<5]"
proof -
  from assms have "i = 1 \<or> i = 2 \<or> i = 3 \<or> i = 4" by auto
  then show ?thesis by (elim disjE) (simp_all add: upt_rec)
qed

text \<open>
  Claim C4. \<open>create_extra_metadata\<close> raises if and only if in some slot 1 to 4 a value that
  is not empty comes with a key that is empty or missing; the error names the first such
  slot. When no slot is unpaired, each slot with a key stores its value, the empty string
  for an empty or missing value, and a slot with neither is skipped: the result is the
  fold of \<open>store_slot\<close> over the slots, so the key of a slot maps to that slot's value
  unless a later slot has the same key.
\<close>

theorem create_extra_metadata_usage_error:
  "((\<exists>e. create_extra_metadata extra_metadata kv = Inl e) \<longleftrightarrow> (\<exists>i \<in> {1..4}. bad_slot kv i)) \<and>
   ((\<forall>i \<in> {1..4}. \<not> bad_slot kv i) \<longrightarrow>
      create_extra_metadata extra_metadata kv =
        Inr (foldl (store_slot kv) (case extra_metadata of None \<Rightarrow> Map.empty | Some m \<Rightarrow> m)
               [1, 2, 3, 4])) \<and>
   ((\<forall>i \<in> {1..4}. \<not> bad_slot kv i) \<and> i \<in> {1..4} \<and> supplied (kv (''key'' @ str_nat i)) \<and>
    (\<forall>j \<in> {Suc i..4}. kv (''key'' @ str_nat j) \<noteq> kv (''key'' @ str_nat i)) \<longrightarrow>
      (\<exists>m. create_extra_metadata extra_metadata kv = Inr m \<and>
           m (the (kv (''key'' @ str_nat i))) =
             Some (if supplied (kv (''value'' @ str_nat i)) then the (kv (''value'' @ str_nat i))
                   else []))) \<and>
   (i \<in> {1..4} \<and> bad_slot kv i \<and> (\<forall>j \<in> {1..<i}. \<not> bad_slot kv j) \<longrightarrow>
      create_extra_metadata extra_metadata kv = Inl (ValueError (unpaired_message i)))"
proof -
  let ?m0 = "case extra_metadata of None \<Rightarrow> Map.empty | Some m \<Rightarrow> m"
  have s: "set [1..<5] = {1..4::nat}" by auto
  have l: "[1..<5] = [1, 2, 3, 4::nat]" by (simp add: upt_rec)
  have a: "(\<exists>e. create_extra_metadata extra_metadata kv = Inl e) \<longleftrightarrow> (\<exists>i \<in> {1..4}. bad_slot kv i)"
    unfolding create_extra_metadata_def extra_loop_raises s ..
  have b: "create_extra_metadata extra_metadata kv = Inr (foldl (store_slot kv) ?m0 [1, 2, 3, 4])"
    if "\<forall>i \<in> {1..4}. \<not> bad_slot kv i"
    using extra_loop_fold [of "[1..<5]" kv ?m0] that
    unfolding create_extra_metadata_def s l by simp
  have c: "\<exists>m. create_extra_metadata extra_metadata kv = Inr m \<and>
           m (the (kv (''key'' @ str_nat i))) =
             Some (if supplied (kv (''value'' @ str_nat i)) then the (kv (''value'' @ str_nat i))
                   else [])"
    if "(\<forall>i \<in> {1..4}. \<not> bad_slot kv i) \<and> i \<in> {1..4} \<and> supplied (kv (''key'' @ str_nat i)) \<and>
      (\<forall>j \<in> {Suc i..4}. kv (''key'' @ str_nat j) \<noteq> kv (''key'' @ str_nat i))"
  proof -
    from that have i: "i \<in> {1..4}" by simp
    have "set [Suc i..<5] = {Suc i..4}" by auto
    with that have "\<forall>j \<in> set [Suc i..<5]. kv (''key'' @ str_nat j) \<noteq> kv (''key'' @ str_nat i)"
      by simp
    from foldl_store_last [OF _ this, of ?m0 "[1..<i]"] that
    have "foldl (store_slot kv) ?m0 [1..<5] (the (kv (''key'' @ str_nat i))) =
       Some (if supplied (kv (''value'' @ str_nat i)) then the (kv (''value'' @ str_nat i)) else [])"
      unfolding slots_split [OF i, symmetric] by simp
    with b that show ?thesis unfolding l by simp
  qed
  have d: "create_extra_metadata extra_metadata kv = Inl (ValueError (unpaired_message i))"
    if "i \<in> {1..4} \<and> bad_slot kv i \<and> (\<forall>j \<in> {1..<i}. \<not> bad_slot kv j)"
  proof -
    from that have i: "i \<in> {1..4}" by simp
    have "set [1..<i] = {1..<i}" by auto
    with that have "\<forall>j \<in> set [1..<i]. \<not> bad_slot kv j" by simp
    from extra_loop_first_error [OF this, of i "[Suc i..<5]" ?m0] that
    show ?thesis unfolding create_extra_metadata_def slots_split [OF i, symmetric] by simp
  qed
  from a b c d show ?thesis by blast
qed

lemmas kv_eval = bad_slot_def supplied_def str_nat.simps

theorem create_extra_metadata_usage_error_witness:
  "list_all (\<lambda>i. \<not> bad_slot kv_example i) [1, 2, 3, 4] \<and>
   (\<exists>m. create_extra_metadata None kv_example = Inr m \<and>
        m ''author'' = Some ''santodan'' \<and> m ''note'' = Some []) \<and>
   bad_slot kv_unpaired 3 \<and>
   create_extra_metadata None kv_unpaired = Inl (ValueError (unpaired_message 3)) \<and>
   (\<exists>e. create_extra_metadata None kv_unpaired = Inl e)"
proof -
  have ok: "\<forall>i \<in> {1..4}. \<not> bad_slot kv_example i"
  proof
    fix i :: nat assume "i \<in> {1..4}"
    then have "i = 1 \<or> i = 2 \<or> i = 3 \<or> i = 4" by auto
    then show "\<not> bad_slot kv_example i"
      by (elim disjE) (simp_all add: kv_eval kv_example_def)
  qed
  have bad: "bad_slot kv_unpaired 3" by (simp add: kv_eval kv_unpaired_def)
  have first: "\<forall>j \<in> {1..<3}. \<not> bad_slot kv_unpaired j"
  proof
    fix j :: nat assume "j \<in> {1..<3}"
    then have "j = 1 \<or> j = 2" by auto
    then show "\<not> bad_slot kv_unpaired j" by (elim disjE) (simp_all add: kv_eval kv_unpaired_def)
  qed
  note t = create_extra_metadata_usage_error [where extra_metadata = None]
  have k: "supplied (kv_example (''key'' @ str_nat 1))" "supplied (kv_example (''key'' @ str_nat 2))"
    by (simp_all add: kv_eval kv_example_def)
  have later1: "\<forall>j \<in> {Suc 1..4}. kv_example (''key'' @ str_nat j) \<noteq> kv_example (''key'' @ str_nat 1)"
  proof
    fix j :: nat assume "j \<in> {Suc 1..4}"
    then have "j = 2 \<or> j = 3 \<or> j = 4" by auto
    then show "kv_example (''key'' @ str_nat j) \<noteq> kv_example (''key'' @ str_nat 1)"
      by (elim disjE) (simp_all add: kv_eval kv_example_def)
  qed
  have later2: "\<forall>j \<in> {Suc 2..4}. kv_example (''key'' @ str_nat j) \<noteq> kv_example (''key'' @ str_nat 2)"
  proof
    fix j :: nat assume "j \<in> {Suc 2..4}"
    then have "j = 3 \<or> j = 4" by auto
    then show "kv_example (''key'' @ str_nat j) \<noteq> kv_example (''key'' @ str_nat 2)"
      by (elim disjE) (simp_all add: kv_eval kv_example_def)
  qed
  from t [where kv = kv_example and i = 1] ok k(1) later1
  obtain m1 where m1: "create_extra_metadata None kv_example = Inr m1"
    "m1 ''author'' = Some ''santodan''"
    by (auto simp: kv_eval kv_example_def)
  from t [where kv = kv_example and i = 2] ok k(2) later2
  obtain m2 where m2: "create_extra_metadata None kv_example = Inr m2" "m2 ''note'' = Some []"
    by (auto simp: kv_eval kv_example_def)
  from m1 m2 have ex: "\<exists>m. create_extra_metadata None kv_example = Inr m \<and>
        m ''author'' = Some ''santodan'' \<and> m ''note'' = Some []" by auto
  from t [where kv = kv_unpaired and i = 3] bad first
  have err: "create_extra_metadata None kv_unpaired = Inl (ValueError (unpaired_message 3))"
    by simp
  from ok have "list_all (\<lambda>i. \<not> bad_slot kv_example i) [1, 2, 3, 4]" by simp
  with ex bad err show ?thesis by simp
qed

section \<open>Properties of \<open>format_filename\<close>\<close>

lemmas format_eval = format_filename_def match_format_def format_segment_def strip_percent_def
  py_str_def as_str_def token_length_def py_isdigit_def py_int_def is_digit_def digits_value_def
  truncate_to_def splitext_root_def basename_def py_rfind_def py_replace.simps

text \<open>
  Claim C6. For the record with Seed \<^verbatim>\<open>"12345"\<close>, Size \<^verbatim>\<open>"512x768"\<close> and Model
  \<^verbatim>\<open>"path/to/myModel.safetensors"\<close>, the template \<^verbatim>\<open>"%model:4%_%seed%_%width%x%height%"\<close>
  gives exactly \<^verbatim>\<open>"myMo_12345_512x768"\<close>, whatever the clock and the text of values that are
  not strings: the pattern finds the four tokens, the model token is the base name of the
  path without its extension, cut to 4 characters, and width and height are the two parts
  of Size split at \<^verbatim>\<open>x\<close>.
\<close>

theorem format_filename_example:
  "findall_format ''%model:4%_%seed%_%width%x%height%'' =
     [''%model:4%'', ''%seed%'', ''%width%'', ''%height%''] \<and>
   truncate_to (Some 4) (splitext_root (basename ''path/to/myModel.safetensors'')) = ''myMo'' \<and>
   py_split CHR ''x'' ''512x768'' = [''512'', ''768''] \<and>
   format_filename repr_other now ''%model:4%_%seed%_%width%x%height%'' base_record =
     Inr ''myMo_12345_512x768''"
  by (simp add: format_eval base_record_def)

section \<open>Properties of \<open>prepare_pnginfo\<close>\<close>

text \<open>
  The heap a call leaves: unchanged for the scope \<^verbatim>\<open>"none"\<close>, and otherwise the heap it was
  given with one new dict at the end, the copy, which has the two batch keys when there
  is more than one image.
\<close>

lemma prepare_pnginfo_heap:
  "snd (prepare_pnginfo gen jd h md p bn tot prompt extra scope) =
     (if scope = ''none'' then h
      else h @ [if tot > 1
                then (h ! p)(''Batch index'' \<mapsto> PInt (int bn), ''Batch size'' \<mapsto> PInt (int tot))
                else h ! p])"
  by (simp add: prepare_pnginfo_def dict_copy_def dict_set_def Let_def
      split: sum.splits pyval.splits)

lemma prepare_pnginfo_frame:
  "a < length h \<Longrightarrow> snd (prepare_pnginfo gen jd h md p bn tot prompt extra scope) ! a = h ! a"
  by (simp add: prepare_pnginfo_heap nth_append)

lemma prepare_pnginfo_length:
  "length h \<le> length (snd (prepare_pnginfo gen jd h md p bn tot prompt extra scope))"
  by (simp add: prepare_pnginfo_heap)

lemma prepare_batch_frame:
  "a < length h \<Longrightarrow> prepare_batch gen jd h md p bns tot prompt extra scope ! a = h ! a"
proof (induction bns arbitrary: h md)
  case Nil
  then show ?case by simp
next
  case (Cons bn bns)
  obtain r h' where eq: "prepare_pnginfo gen jd h md p bn tot prompt extra scope = (r, h')"
    by (cases "prepare_pnginfo gen jd h md p bn tot prompt extra scope")
  from prepare_pnginfo_frame [of a h gen jd md p bn tot prompt extra scope]
    prepare_pnginfo_length [of h gen jd md p bn tot prompt extra scope] eq Cons.prems
  have h': "h' ! a = h ! a" "a < length h'" by simp_all
  show ?case
  proof (cases r)
    case (Inl e)
    with eq h' show ?thesis by simp
  next
    case (Inr mo)
    with eq h' Cons.IH [OF h'(2)] show ?thesis by (cases mo) simp_all
  qed
qed

lemma add_extra_prefix: "add_extra jd kvs m = Inr m' \<Longrightarrow> set m \<subseteq> set m'"
proof (induction kvs arbitrary: m)
  case Nil
  then show ?case by simp
next
  case (Cons kv kvs)
  obtain k v where kv: "kv = (k, v)" by (cases kv)
  from Cons.prems kv obtain t where "add_extra jd kvs (m @ [(k, t)]) = Inr m'"
    by (auto split: sum.splits)
  from Cons.IH [OF this] show ?case by auto
qed

lemma prepare_pnginfo_parameters:
  assumes "prepare_pnginfo gen jd h md p bn tot prompt extra ''full'' = (Inr (Some m), h')"
  shows "\<exists>ps. gen (h' ! length h) = Inr ps \<and> (''parameters'', ps) \<in> set m"
proof -
  let ?c = "if tot > 1
            then (h ! p)(''Batch index'' \<mapsto> PInt (int bn), ''Batch size'' \<mapsto> PInt (int tot))
            else h ! p"
  from assms prepare_pnginfo_heap [of gen jd h md p bn tot prompt extra "''full''"]
  have h': "h' = h @ [?c]" by simp
  then have c: "h' ! length h = ?c" by simp
  have h2: "(if tot > 1 then
                     dict_set (dict_set (h @ [h ! p]) (length h) ''Batch index'' (PInt (int bn)))
                       (length h) ''Batch size'' (PInt (int tot))
                   else h @ [h ! p]) ! length h = ?c"
    by (simp add: dict_set_def)
  from assms obtain ps where ps: "gen ?c = Inr ps"
    unfolding prepare_pnginfo_def dict_copy_def Let_def prod.case h2
    by (cases "gen ?c") (simp_all split: if_splits)
  from assms ps have "(''parameters'', ps) \<in> set m"
    unfolding prepare_pnginfo_def dict_copy_def Let_def prod.case h2
    by (auto split: if_splits sum.splits pyval.splits dest!: add_extra_prefix)
  with ps c show ?thesis by auto
qed


text \<open>
  Claim C5, as stated, fails for the scope \<^verbatim>\<open>"none"\<close>: for image 1 of a batch of 3 the call
  returns \<^verbatim>\<open>None\<close> before it copies anything, so the heap still holds the base record alone
  and no dict has the batch keys.
\<close>

theorem batch_keys_not_injected_counterexample:
  "prepare_pnginfo batch_marker no_json [base_record] [] 0 1 3 PNone PNone ''none'' =
     (Inr None, [base_record]) \<and>
   base_record ''Batch index'' = None \<and> base_record ''Batch size'' = None"
  by (simp add: prepare_pnginfo_def base_record_def)

text \<open>
  Claim C5, amended. Whatever a call of \<open>prepare_pnginfo\<close> returns or raises, every dict
  that existed before it, the shared base record among them, is the same after it. For a
  scope other than \<^verbatim>\<open>"none"\<close> the call allocates exactly one dict, which for more than one
  image is the base record with \<^verbatim>\<open>Batch index\<close> and \<^verbatim>\<open>Batch size\<close> set to the image's
  number and the number of images, and a plain copy otherwise; for the scope \<^verbatim>\<open>"full"\<close>
  the parameters text of the returned metadata is generated from that copy. For the scope
  \<^verbatim>\<open>"none"\<close> the call allocates nothing and returns \<^verbatim>\<open>None\<close>. The loop over the images of a
  batch leaves every dict that existed before it unchanged as well.
\<close>

theorem prepare_pnginfo_copies_base:
  assumes "prepare_pnginfo gen jd h md p bn tot prompt extra scope = (r, h')"
  shows "(\<forall>a < length h. h' ! a = h ! a) \<and>
     (scope \<noteq> ''none'' \<longrightarrow>
        length h' = Suc (length h) \<and>
        h' ! length h =
          (if tot > 1
           then (h ! p)(''Batch index'' \<mapsto> PInt (int bn), ''Batch size'' \<mapsto> PInt (int tot))
           else h ! p)) \<and>
     (scope = ''none'' \<longrightarrow> h' = h \<and> r = Inr None) \<and>
     (scope = ''full'' \<longrightarrow>
        (\<forall>m. r = Inr (Some m) \<longrightarrow>
           (\<exists>ps. gen (h' ! length h) = Inr ps \<and> (''parameters'', ps) \<in> set m))) \<and>
     (\<forall>a < length h. \<forall>bns.
        prepare_batch gen jd h md p bns tot prompt extra scope ! a = h ! a)"
proof -
  from assms have h': "h' = snd (prepare_pnginfo gen jd h md p bn tot prompt extra scope)"
    by simp
  have 1: "\<forall>a < length h. h' ! a = h ! a"
    unfolding h' by (simp add: prepare_pnginfo_frame)
  have 2: "scope \<noteq> ''none'' \<longrightarrow>
        length h' = Suc (length h) \<and>
        h' ! length h =
          (if tot > 1
           then (h ! p)(''Batch index'' \<mapsto> PInt (int bn), ''Batch size'' \<mapsto> PInt (int tot))
           else h ! p)"
    unfolding h' prepare_pnginfo_heap by simp
  have 3: "scope = ''none'' \<longrightarrow> h' = h \<and> r = Inr None"
    using assms by (auto simp add: prepare_pnginfo_def)
  have 4: "scope = ''full'' \<longrightarrow>
        (\<forall>m. r = Inr (Some m) \<longrightarrow>
           (\<exists>ps. gen (h' ! length h) = Inr ps \<and> (''parameters'', ps) \<in> set m))"
  proof (intro impI allI)
    fix m
    assume "scope = ''full''" and "r = Inr (Some m)"
    with assms
    have "prepare_pnginfo gen jd h md p bn tot prompt extra ''full'' = (Inr (Some m), h')"
      by simp
    then show "\<exists>ps. gen (h' ! length h) = Inr ps \<and> (''parameters'', ps) \<in> set m"
      by (rule prepare_pnginfo_parameters)
  qed
  have 5: "\<forall>a < length h. \<forall>bns.
        prepare_batch gen jd h md p bns tot prompt extra scope ! a = h ! a"
    by (simp add: prepare_batch_frame)
  show ?thesis by (intro conjI) (rule 1 2 3 4 5)+
qed

theorem prepare_pnginfo_copies_base_witness:
  "prepare_pnginfo batch_marker no_json [base_record] [] 0 1 3 PNone PNone ''full'' =
     (Inr (Some [(''parameters'', ''Batch index: 1'')]),
      [base_record, base_record(''Batch index'' \<mapsto> PInt 1, ''Batch size'' \<mapsto> PInt 3)]) \<and>
   prepare_batch batch_marker no_json [base_record] [] 0 [0, 1, 2] 3 PNone PNone ''full'' ! 0 =
     base_record \<and>
   base_record ''Batch index'' = None \<and> base_record ''Batch size'' = None"
proof -
  have c: "prepare_pnginfo batch_marker no_json [base_record] [] 0 1 3 PNone PNone ''full'' =
     (Inr (Some [(''parameters'', ''Batch index: 1'')]),
      [base_record, base_record(''Batch index'' \<mapsto> PInt 1, ''Batch size'' \<mapsto> PInt 3)])"
    by (simp add: prepare_pnginfo_def dict_copy_def dict_set_def batch_marker_def str_int_def
        str_nat.simps)
  from prepare_pnginfo_copies_base [OF c]
  have "prepare_batch batch_marker no_json [base_record] [] 0 [0, 1, 2] 3 PNone PNone ''full'' ! 0 =
     [base_record] ! 0"
    by (simp del: prepare_batch.simps)
  with c show ?thesis by (simp add: base_record_def)
qed

end
